theory Spec2Isabelle
  imports Complex_Main "HOL-Library.Multiset"
begin

section \<open>JavaScript numbers\<close>

text \<open>
  Every number of the program is a JavaScript \<open>number\<close>: an IEEE 754 binary64 value.
  A finite value is the rational it denotes; \<open>NaN\<close> and the two infinities are
  constructors of their own. The result of an arithmetic operation on finite operands
  is the exact result rounded to the nearest binary64 value, ties to even (\<open>rnd\<close>),
  with gradual underflow below \<open>2 powi (- 1022)\<close> and overflow to an infinity above the
  largest finite value (\<open>fl\<close>). The one thing left out is the sign of zero: \<open>- 0\<close>
  and \<open>+ 0\<close> are both \<open>Fin 0\<close>, so a division of a non-zero number by zero takes the
  sign of the dividend.
\<close>

datatype jsnum = NaN | NInf | Fin rat | PInf

text \<open>\<open>ilog2 x\<close> is the binary exponent of a positive \<open>x\<close>: \<open>2 powi ilog2 x \<le> x < 2 powi (ilog2 x + 1)\<close>.\<close>

function ilog2 :: "rat \<Rightarrow> int" where
  "ilog2 x = (if x \<le> 0 then 0
              else if 2 \<le> x then ilog2 (x / 2) + 1
              else if x < 1 then ilog2 (x * 2) - 1
              else 0)"
  by pat_completeness auto
termination
proof (relation "measure (\<lambda>x. if 1 \<le> x then nat \<lfloor>x\<rfloor> else nat \<lceil>1 / x\<rceil> + 1)")
  show "wf (measure (\<lambda>x::rat. if 1 \<le> x then nat \<lfloor>x\<rfloor> else nat \<lceil>1 / x\<rceil> + 1))"
    by simp
next
  fix x :: rat
  assume a: "\<not> x \<le> 0" "2 \<le> x"
  have "\<lfloor>x / 2\<rfloor> < \<lfloor>x\<rfloor>"
    using a by linarith
  moreover have "1 \<le> x / 2" "1 \<le> x"
    using a by auto
  ultimately show "(x / 2, x) \<in> measure (\<lambda>x. if 1 \<le> x then nat \<lfloor>x\<rfloor> else nat \<lceil>1 / x\<rceil> + 1)"
    using a by auto
next
  fix x :: rat
  assume a: "\<not> x \<le> 0" "\<not> 2 \<le> x" "x < 1"
  have x: "0 < x"
    using a by simp
  show "(x * 2, x) \<in> measure (\<lambda>x. if 1 \<le> x then nat \<lfloor>x\<rfloor> else nat \<lceil>1 / x\<rceil> + 1)"
  proof (cases "1 \<le> x * 2")
    case True
    then have "\<lfloor>x * 2\<rfloor> = 1"
      using a by linarith
    moreover have "1 < 1 / x"
      using a by (simp add: field_simps)
    then have "2 \<le> \<lceil>1 / x\<rceil>"
      by linarith
    ultimately show ?thesis
      using True a by auto
  next
    case False
    define y where "y = 1 / x"
    from False have y: "2 < y"
      using x by (simp add: y_def field_simps)
    have "rat_of_int \<lceil>y / 2\<rceil> < y / 2 + 1"
      by linarith
    also have "\<dots> \<le> y"
      using y by simp
    also have "y \<le> rat_of_int \<lceil>y\<rceil>"
      by linarith
    finally have "\<lceil>y / 2\<rceil> < \<lceil>y\<rceil>"
      by simp
    then have "\<lceil>1 / x / 2\<rceil> < \<lceil>1 / x\<rceil>"
      unfolding y_def .
    moreover have "1 / (x * 2) = 1 / x / 2"
      by simp
    ultimately have "\<lceil>1 / (x * 2)\<rceil> < \<lceil>1 / x\<rceil>"
      by (simp only:)
    moreover have "0 < \<lceil>1 / x\<rceil>"
      using x by (simp add: field_simps)
    ultimately show ?thesis
      using False a by auto
  qed
qed

declare ilog2.simps [simp del]

definition roundHalfEven :: "rat \<Rightarrow> int" where
  "roundHalfEven q =
     (let f = \<lfloor>q\<rfloor>; d = q - of_int f
      in if d < 1 / 2 then f else if 1 / 2 < d then f + 1 else if even f then f else f + 1)"

text \<open>The exponent of the unit in the last place: 53 significant bits, and the spacing
  of the subnormal numbers below \<open>2 powi (- 1022)\<close>.\<close>

definition ulpExp :: "rat \<Rightarrow> int" where
  "ulpExp x = max (ilog2 \<bar>x\<bar>) (- 1022) - 52"

definition rnd :: "rat \<Rightarrow> rat" where
  "rnd x = (let u = 2 powi ulpExp x in of_int (roundHalfEven (x / u)) * u)"

text \<open>A rounded value of binary exponent \<open>1024\<close> or more is beyond the largest finite
  number \<open>(2 ^ 53 - 1) * 2 ^ 971\<close>: the result is an infinity.\<close>

definition fl :: "rat \<Rightarrow> jsnum" where
  "fl x = (let r = rnd x
           in if ilog2 \<bar>r\<bar> < 1024 then Fin r else if 0 < r then PInf else NInf)"

text \<open>The smallest positive number; every binary64 value is a multiple of it.\<close>

definition minSubnormal :: rat where
  "minSubnormal = 2 powi (- 1074)"

text \<open>A decimal literal of the source denotes the nearest binary64 value.\<close>

definition lit :: "rat \<Rightarrow> jsnum" where
  "lit q = fl q"

definition isNaN :: "jsnum \<Rightarrow> bool" where
  "isNaN x = (x = NaN)"

fun is_neg :: "jsnum \<Rightarrow> bool" where
  "is_neg NInf = True"
| "is_neg (Fin a) = (a < 0)"
| "is_neg _ = False"

fun jneg :: "jsnum \<Rightarrow> jsnum" where
  "jneg NaN = NaN"
| "jneg NInf = PInf"
| "jneg (Fin a) = Fin (- a)"
| "jneg PInf = NInf"

fun jadd :: "jsnum \<Rightarrow> jsnum \<Rightarrow> jsnum" where
  "jadd (Fin a) (Fin b) = fl (a + b)"
| "jadd NaN _ = NaN"
| "jadd _ NaN = NaN"
| "jadd PInf NInf = NaN"
| "jadd NInf PInf = NaN"
| "jadd PInf _ = PInf"
| "jadd _ PInf = PInf"
| "jadd NInf _ = NInf"
| "jadd _ NInf = NInf"

definition jsub :: "jsnum \<Rightarrow> jsnum \<Rightarrow> jsnum" where
  "jsub x y = jadd x (jneg y)"

fun jmul :: "jsnum \<Rightarrow> jsnum \<Rightarrow> jsnum" where
  "jmul (Fin a) (Fin b) = fl (a * b)"
| "jmul NaN _ = NaN"
| "jmul _ NaN = NaN"
| "jmul x y = (if x = Fin 0 \<or> y = Fin 0 then NaN
               else if is_neg x = is_neg y then PInf else NInf)"

fun jdiv :: "jsnum \<Rightarrow> jsnum \<Rightarrow> jsnum" where
  "jdiv (Fin a) (Fin b) =
     (if b = 0 then (if a = 0 then NaN else if 0 < a then PInf else NInf)
      else fl (a / b))"
| "jdiv NaN _ = NaN"
| "jdiv _ NaN = NaN"
| "jdiv (Fin a) _ = Fin 0"
| "jdiv x (Fin b) = (if is_neg x = (b < 0) then PInf else NInf)"
| "jdiv _ _ = NaN"

text \<open>The comparisons \<open><\<close>, \<open><=\<close>, \<open>>\<close>, \<open>>=\<close>: false as soon as an operand is \<open>NaN\<close>.\<close>

fun js_lt :: "jsnum \<Rightarrow> jsnum \<Rightarrow> bool" where
  "js_lt (Fin a) (Fin b) = (a < b)"
| "js_lt NaN _ = False"
| "js_lt _ NaN = False"
| "js_lt NInf NInf = False"
| "js_lt NInf _ = True"
| "js_lt _ NInf = False"
| "js_lt PInf _ = False"
| "js_lt _ PInf = True"

definition js_le :: "jsnum \<Rightarrow> jsnum \<Rightarrow> bool" where
  "js_le x y = (x \<noteq> NaN \<and> y \<noteq> NaN \<and> \<not> js_lt y x)"

definition js_gt :: "jsnum \<Rightarrow> jsnum \<Rightarrow> bool" where
  "js_gt x y = js_lt y x"

definition js_ge :: "jsnum \<Rightarrow> jsnum \<Rightarrow> bool" where
  "js_ge x y = js_le y x"

text \<open>\<open>Math.abs\<close>, \<open>Math.max\<close>, \<open>Math.min\<close> (two arguments, and spread over an array),
  \<open>Math.ceil\<close>, \<open>Math.floor\<close>.\<close>

fun jabs :: "jsnum \<Rightarrow> jsnum" where
  "jabs NaN = NaN"
| "jabs NInf = PInf"
| "jabs (Fin a) = Fin \<bar>a\<bar>"
| "jabs PInf = PInf"

definition jmax :: "jsnum \<Rightarrow> jsnum \<Rightarrow> jsnum" where
  "jmax x y = (if x = NaN \<or> y = NaN then NaN else if js_lt x y then y else x)"

definition jmin :: "jsnum \<Rightarrow> jsnum \<Rightarrow> jsnum" where
  "jmin x y = (if x = NaN \<or> y = NaN then NaN else if js_lt y x then y else x)"

definition jmax_list :: "jsnum list \<Rightarrow> jsnum" where
  "jmax_list xs = foldl jmax NInf xs"

definition jmin_list :: "jsnum list \<Rightarrow> jsnum" where
  "jmin_list xs = foldl jmin PInf xs"

fun jceil :: "jsnum \<Rightarrow> jsnum" where
  "jceil (Fin a) = Fin (of_int \<lceil>a\<rceil>)"
| "jceil x = x"

fun jfloor :: "jsnum \<Rightarrow> jsnum" where
  "jfloor (Fin a) = Fin (of_int \<lfloor>a\<rfloor>)"
| "jfloor x = x"

text \<open>\<open>Math.sqrt\<close> is correctly rounded. \<open>isqrt\<close> is the integer square root; the
  root of a positive \<open>x\<close> lies in the binade of exponent \<open>ilog2 x div 2\<close>, and the nearer
  of its two binary64 neighbours is found by comparing \<open>x\<close> with the square of their
  midpoint.\<close>

function isqrt :: "int \<Rightarrow> int" where
  "isqrt n = (if n < 2 then max n 0
              else let r = 2 * isqrt (n div 4)
                   in if (r + 1) * (r + 1) \<le> n then r + 1 else r)"
  by pat_completeness auto
termination
  by (relation "measure nat") auto

declare isqrt.simps [simp del]

definition sqrtRnd :: "rat \<Rightarrow> rat" where
  "sqrtRnd x =
     (let u = 2 powi (ilog2 x div 2 - 52);
          m = isqrt \<lfloor>x / (u * u)\<rfloor>;
          h = (of_int m + 1 / 2) * u
      in if x < h * h then of_int m * u
         else if h * h < x then of_int (m + 1) * u
         else if even m then of_int m * u else of_int (m + 1) * u)"

fun jsqrt :: "jsnum \<Rightarrow> jsnum" where
  "jsqrt (Fin a) = (if a < 0 then NaN else if a = 0 then Fin 0 else Fin (sqrtRnd a))"
| "jsqrt PInf = PInf"
| "jsqrt _ = NaN"

text \<open>\<open>x || y\<close> on a possibly absent number: \<open>undefined\<close>, \<open>0\<close> and \<open>NaN\<close> are falsy.\<close>

definition js_or :: "jsnum option \<Rightarrow> jsnum \<Rightarrow> jsnum" where
  "js_or x y = (case x of None \<Rightarrow> y | Some v \<Rightarrow> if v = NaN \<or> v = Fin 0 then y else v)"

text \<open>\<open>Array.prototype.sort\<close> with a comparator: a stable sort that puts \<open>x\<close> after \<open>y\<close>
  exactly when the comparator's value on \<open>(x, y)\<close> is positive (a \<open>NaN\<close> value counts as
  zero). It is written as an insertion sort; for a comparator that is consistent, as
  the two of this program are on numbers other than \<open>NaN\<close>, every stable sort returns
  this list.\<close>

fun insert_by :: "('a \<Rightarrow> 'a \<Rightarrow> jsnum) \<Rightarrow> 'a \<Rightarrow> 'a list \<Rightarrow> 'a list" where
  "insert_by cmp x [] = [x]"
| "insert_by cmp x (y # ys) =
     (if js_gt (cmp x y) (Fin 0) then y # insert_by cmp x ys else x # y # ys)"

definition js_sort :: "('a \<Rightarrow> 'a \<Rightarrow> jsnum) \<Rightarrow> 'a list \<Rightarrow> 'a list" where
  "js_sort cmp xs = foldr (insert_by cmp) xs []"


section \<open>Power analysis: \<open>calculatePower\<close> of the \<open>PowerFunction\<close> component\<close>

text \<open>
  The component keeps its form fields in state and \<open>calculatePower\<close> reads them through
  \<open>parseFloat\<close> and \<open>parseInt\<close>. \<open>PowerInputs\<close> holds the parsed numbers (\<open>alphaNum\<close>,
  \<open>targetPowerNum\<close>, \<open>sigmaNum\<close>, \<open>nNum\<close>, \<open>mu0Num\<close>); \<open>effectSize\<close> is \<open>None\<close> for the
  \<open>null\<close> of an empty field and the number otherwise (\<open>parseFloat\<close> of a number is that
  number). Each \<open>throw\<close> is a constructor of \<open>power_error\<close>; the \<open>catch\<close> stores the
  message and clears the result, so the outcome of a call is either the error or the
  result object.
\<close>

record PowerInputs =
  alphaNum :: jsnum
  targetPowerNum :: jsnum
  sigmaNum :: jsnum
  nNum :: jsnum
  mu0Num :: jsnum
  effectSize :: "jsnum option"

datatype power_error =
  SignificanceLevelOutOfRange
  | StandardDeviationNotPositive
  | SampleSizeNotPositive
  | EffectSizeNotNonZero
  | TargetPowerOutOfRange

record PowerPoint =
  mu :: jsnum
  power :: jsnum

record PowerResult =
  res_alpha :: jsnum
  res_mu0 :: jsnum
  res_sigma :: jsnum
  res_n :: jsnum
  res_effectSize :: "jsnum option"
  res_targetPower :: jsnum
  powerData :: "PowerPoint list"
  requiredSampleSize :: "jsnum option"

text \<open>
  The counter of \<open>for (let i = -3; i <= 3; i += 0.1)\<close>: \<open>sweep i acc\<close> appends to \<open>acc\<close>
  the values the counter takes from \<open>i\<close> on. Nothing in the loop itself bounds the number
  of iterations (from a counter so large in magnitude that adding \<open>0.1\<close> does not change
  it, it runs forever), so the function is partial and \<open>None\<close> stands for a loop that
  does not end.
\<close>

partial_function (option) sweep :: "jsnum \<Rightarrow> jsnum list \<Rightarrow> jsnum list option" where
  "sweep i acc =
     (if js_le i (Fin 3) then sweep (jadd i (lit (1 / 10))) (acc @ [i]) else Some acc)"

declare sweep.simps [code]

definition muAlternatives :: "jsnum \<Rightarrow> jsnum \<Rightarrow> jsnum list option" where
  "muAlternatives m step =
     map_option (map (\<lambda>i. jadd m (jmul i step))) (sweep (Fin (- 3)) [])"

text \<open>The body of \<open>muAlternatives.forEach\<close>: the point pushed for one alternative mean.\<close>

definition powerPoint :: "PowerInputs \<Rightarrow> jsnum \<Rightarrow> PowerPoint" where
  "powerPoint inp muAlternative =
     (let zStatistic = jdiv (jsub muAlternative (mu0Num inp))
                            (jdiv (sigmaNum inp) (jsqrt (nNum inp)));
          pw = jsub (Fin 1)
                 (if js_lt (jsub (jabs zStatistic) (lit (196 / 100))) (Fin 0)
                  then jsub (jabs zStatistic) (lit (196 / 100))
                  else jadd (jabs zStatistic) (lit (196 / 100)))
      in \<lparr>mu = muAlternative, power = jmin (jmax pw (Fin 0)) (Fin 1)\<rparr>)"

definition sampleSize :: "PowerInputs \<Rightarrow> jsnum option" where
  "sampleSize inp =
     (case effectSize inp of
        None \<Rightarrow> None
      | Some es \<Rightarrow>
          if isNaN es then None
          else let deltaNum = jmul es (sigmaNum inp);
                   zAlpha = lit (196 / 100);
                   zBeta = lit (84 / 100);
                   q = jdiv (jmul (jadd zAlpha zBeta) (sigmaNum inp)) deltaNum
               in Some (jceil (jmul q q)))"

definition validate :: "PowerInputs \<Rightarrow> power_error option" where
  "validate inp =
     (if isNaN (alphaNum inp) \<or> js_le (alphaNum inp) (Fin 0) \<or> js_ge (alphaNum inp) (Fin 1)
      then Some SignificanceLevelOutOfRange
      else if js_le (sigmaNum inp) (Fin 0) then Some StandardDeviationNotPositive
      else if js_le (nNum inp) (Fin 0) then Some SampleSizeNotPositive
      else if (case effectSize inp of None \<Rightarrow> False | Some es \<Rightarrow> isNaN es \<or> es = Fin 0)
      then Some EffectSizeNotNonZero
      else if isNaN (targetPowerNum inp) \<or> js_le (targetPowerNum inp) (Fin 0)
              \<or> js_ge (targetPowerNum inp) (Fin 1)
      then Some TargetPowerOutOfRange
      else None)"

text \<open>\<open>calculatePower\<close>: \<open>None\<close> if the sweep does not end, otherwise the error thrown or
  the result stored by \<open>setTestResult\<close>. The square \<open>x ** 2\<close> is the rounded product.\<close>

definition calculatePower :: "PowerInputs \<Rightarrow> (power_error + PowerResult) option" where
  "calculatePower inp =
     (case validate inp of
        Some e \<Rightarrow> Some (Inl e)
      | None \<Rightarrow>
          let step = jdiv (sigmaNum inp) (jsqrt (nNum inp))
          in map_option
               (\<lambda>mus. Inr \<lparr>res_alpha = alphaNum inp, res_mu0 = mu0Num inp,
                             res_sigma = sigmaNum inp, res_n = nNum inp,
                             res_effectSize = effectSize inp,
                             res_targetPower = targetPowerNum inp,
                             powerData = map (powerPoint inp) mus,
                             requiredSampleSize = sampleSize inp\<rparr>)
               (muAlternatives (mu0Num inp) step))"


section \<open>Goodness-of-fit testing: the \<open>GoodnessOfFitTest\<close> component\<close>

text \<open>
  The component exists in two versions. The one with the automatic test
  (\<open>performAutoTest\<close>) is modelled under the source's names; of the other one, in
  \<open>src/components/GoodnessOfFitTest.tsx\<close>, the two configuration tables differ and
  carry the suffix \<open>_tsx\<close>, while \<open>estimateParameters\<close> is the same text in both.
\<close>

datatype DistributionTypeForGoF = Normal | Uniform | Exponential | Poisson

datatype GoFTestType =
  KolmogorovSmirnov | ChiSquare | AndersonDarling | ShapiroWilk | JarqueBera

text \<open>Of an option of the two tables, the fields that the code reads: \<open>type\<close>, \<open>name\<close> and
  the list of tests or distributions (the others are texts for display).\<close>

record TestDistributionOption =
  dist_type :: DistributionTypeForGoF
  dist_name :: string
  supportedTests :: "GoFTestType list"

record TestMethodOption =
  method_type :: GoFTestType
  method_name :: string
  applicableDistributions :: "DistributionTypeForGoF list"

definition distributionOptions :: "TestDistributionOption list" where
  "distributionOptions =
     [\<lparr>dist_type = Normal, dist_name = ''Normal Distribution'',
       supportedTests =
         [KolmogorovSmirnov, ChiSquare, AndersonDarling, ShapiroWilk, JarqueBera]\<rparr>,
      \<lparr>dist_type = Uniform, dist_name = ''Uniform Distribution'',
       supportedTests = [KolmogorovSmirnov, ChiSquare]\<rparr>,
      \<lparr>dist_type = Exponential, dist_name = ''Exponential Distribution'',
       supportedTests = [KolmogorovSmirnov, ChiSquare]\<rparr>,
      \<lparr>dist_type = Poisson, dist_name = ''Poisson Distribution'',
       supportedTests = [KolmogorovSmirnov, ChiSquare]\<rparr>]"

definition testMethodOptions :: "TestMethodOption list" where
  "testMethodOptions =
     [\<lparr>method_type = KolmogorovSmirnov, method_name = ''Kolmogorov-Smirnov Test'',
       applicableDistributions = [Normal, Uniform, Exponential, Poisson]\<rparr>,
      \<lparr>method_type = ChiSquare, method_name = ''Chi-Square Goodness-of-Fit Test'',
       applicableDistributions = [Normal, Uniform, Exponential, Poisson]\<rparr>,
      \<lparr>method_type = AndersonDarling, method_name = ''Anderson-Darling Test'',
       applicableDistributions = [Normal]\<rparr>,
      \<lparr>method_type = JarqueBera, method_name = ''Jarque-Bera Test'',
       applicableDistributions = [Normal]\<rparr>]"

definition distributionOptions_tsx :: "TestDistributionOption list" where
  "distributionOptions_tsx =
     [\<lparr>dist_type = Normal, dist_name = ''Normal Distribution'',
       supportedTests =
         [KolmogorovSmirnov, ChiSquare, AndersonDarling, ShapiroWilk, JarqueBera]\<rparr>,
      \<lparr>dist_type = Uniform, dist_name = ''Uniform Distribution'',
       supportedTests = [KolmogorovSmirnov, ChiSquare]\<rparr>,
      \<lparr>dist_type = Exponential, dist_name = ''Exponential Distribution'',
       supportedTests = [KolmogorovSmirnov, ChiSquare]\<rparr>,
      \<lparr>dist_type = Poisson, dist_name = ''Poisson Distribution'',
       supportedTests = [ChiSquare]\<rparr>]"

definition testMethodOptions_tsx :: "TestMethodOption list" where
  "testMethodOptions_tsx =
     [\<lparr>method_type = KolmogorovSmirnov, method_name = ''Kolmogorov-Smirnov Test'',
       applicableDistributions = [Normal, Uniform, Exponential]\<rparr>,
      \<lparr>method_type = ChiSquare, method_name = ''Chi-Square Goodness-of-Fit Test'',
       applicableDistributions = [Normal, Uniform, Exponential, Poisson]\<rparr>,
      \<lparr>method_type = AndersonDarling, method_name = ''Anderson-Darling Test'',
       applicableDistributions = [Normal]\<rparr>,
      \<lparr>method_type = JarqueBera, method_name = ''Jarque-Bera Test'',
       applicableDistributions = [Normal]\<rparr>]"

subsection \<open>What the component imports\<close>

text \<open>
  \<open>executeGoFTest\<close>, \<open>calculateMean\<close>, \<open>calculateStd\<close> and \<open>calculateVariance\<close> come from
  \<open>utils/statistics\<close>, and the type of a test result from \<open>types\<close>; neither file is
  among the sources. The four functions are the fields of a record that the
  component's functions take as their first argument, so that what is proved holds for
  every implementation of them. A test returns a result or throws; the three
  estimators return a number. Of the result, the fields are those that the component
  reads.
\<close>

datatype thrown = Thrown string

record GoFTestResult =
  statistic :: jsnum
  pValue :: jsnum
  isReject :: bool
  criticalValue :: "jsnum option"
  degreesOfFreedom :: "jsnum option"

type_synonym params = "string \<rightharpoonup> jsnum"

record Statistics =
  calculateMean :: "jsnum list \<Rightarrow> jsnum"
  calculateStd :: "jsnum list \<Rightarrow> jsnum"
  calculateVariance :: "jsnum list \<Rightarrow> jsnum"
  executeGoFTest ::
    "jsnum list \<Rightarrow> GoFTestType \<Rightarrow> DistributionTypeForGoF \<Rightarrow> jsnum \<Rightarrow> params \<Rightarrow> jsnum
       \<Rightarrow> thrown + GoFTestResult"

subsection \<open>Props and state\<close>

record BasicStats =
  bs_mean :: jsnum
  bs_std :: jsnum

text \<open>Of \<open>distributionInfo\<close> the code reads \<open>type\<close>; \<open>None\<close> is a type that is absent or
  none of the four distributions.\<close>

record DistributionInfo =
  info_type :: "DistributionTypeForGoF option"

text \<open>An entry of the automatic test: the fields copied from the test's result, the
  pair it belongs to, and, once the list is scored and ranked, \<open>combinedScore\<close> and
  \<open>rank\<close> (the position in the list, counted from one).\<close>

record AutoTestEntry = GoFTestResult +
  distributionType :: DistributionTypeForGoF
  distributionName :: string
  testType :: GoFTestType
  testName :: string
  confidenceLevel :: jsnum
  isActualDistribution :: "bool option"

record ScoredEntry = AutoTestEntry +
  combinedScore :: jsnum

record RankedEntry = ScoredEntry +
  rank :: nat

record Accuracy =
  isRecommended :: bool
  acc_rank :: nat
  acc_pValue :: jsnum

datatype gof_error = DatasetRequired | SignificanceLevelInvalid | SampleSizeTooSmall

text \<open>The props (\<open>dataset\<close>, \<open>basicStats\<close>, \<open>distributionInfo\<close>) and the state of the
  component. \<open>significanceLevel\<close> is the number that \<open>parseFloat\<close> reads from the
  field, \<open>NaN\<close> when there is none; \<open>state_distributionType\<close> is the state variable
  \<open>distributionType\<close>, renamed apart from the field of an entry.\<close>

record GoFComponent =
  dataset :: "jsnum list"
  basicStats :: "BasicStats option"
  distributionInfo :: "DistributionInfo option"
  state_distributionType :: DistributionTypeForGoF
  significanceLevel :: jsnum
  numBins :: jsnum
  autoEstimateParams :: bool
  estimatedParams :: params
  error :: "gof_error option"
  autoTestRunning :: bool
  autoTestResults :: "RankedEntry list"
  recommendedDistribution :: "RankedEntry option"
  actualDistributionAccuracy :: "Accuracy option"

subsection \<open>\<open>estimateParameters\<close>\<close>

definition estimateParameters :: "Statistics \<Rightarrow> GoFComponent \<Rightarrow> GoFComponent" where
  "estimateParameters lib c =
     (if \<not> autoEstimateParams c then c
      else c\<lparr>estimatedParams :=
        (case state_distributionType c of
           Normal \<Rightarrow>
             [''mean'' \<mapsto> js_or (map_option bs_mean (basicStats c))
                                  (calculateMean lib (dataset c)),
              ''std'' \<mapsto> js_or (map_option bs_std (basicStats c))
                                 (calculateStd lib (dataset c))]
         | Uniform \<Rightarrow>
             [''a'' \<mapsto> jmin_list (dataset c), ''b'' \<mapsto> jmax_list (dataset c)]
         | Exponential \<Rightarrow>
             [''lambda'' \<mapsto> jdiv (Fin 1) (calculateMean lib (dataset c))]
         | Poisson \<Rightarrow>
             [''lambda'' \<mapsto> calculateMean lib (dataset c)])\<rparr>)"

subsection \<open>\<open>performAutoTest\<close>\<close>

text \<open>An array read at a number: the element when the number is an index of the
  array, \<open>undefined\<close> otherwise, which every use of the value here turns into \<open>NaN\<close>.\<close>

definition at_index :: "jsnum list \<Rightarrow> jsnum \<Rightarrow> jsnum" where
  "at_index xs i =
     (case i of
        Fin q \<Rightarrow> if 0 \<le> q \<and> q = of_int \<lfloor>q\<rfloor> \<and> nat \<lfloor>q\<rfloor> < length xs
                 then xs ! nat \<lfloor>q\<rfloor> else NaN
      | _ \<Rightarrow> NaN)"

text \<open>The \<open>switch\<close> on the type of the distribution: the parameters handed to the test.\<close>

definition uniformRobust :: "jsnum list \<Rightarrow> params" where
  "uniformRobust ds =
     (let sortedData = js_sort (\<lambda>a b. jsub a b) ds;
          n = length sortedData;
          q1 = at_index sortedData (jfloor (jmul (Fin (of_nat n)) (lit (25 / 100))));
          q3 = at_index sortedData (jfloor (jmul (Fin (of_nat n)) (lit (75 / 100))));
          iqr = jsub q3 q1;
          mn = jmax (at_index sortedData (Fin 0)) (jsub q1 (jmul (Fin 3) iqr));
          mx = jmin (at_index sortedData (jsub (Fin (of_nat n)) (Fin 1)))
                    (jadd q3 (jmul (Fin 3) iqr))
      in [''a'' \<mapsto> mn, ''b'' \<mapsto> mx])"

definition paramsToUse :: "Statistics \<Rightarrow> GoFComponent \<Rightarrow> DistributionTypeForGoF \<Rightarrow> params" where
  "paramsToUse lib c d =
     (case d of
        Normal \<Rightarrow>
          (let mean = js_or (map_option bs_mean (basicStats c)) (calculateMean lib (dataset c));
               std = js_or (map_option bs_std (basicStats c)) (calculateStd lib (dataset c));
               safeStd = (if js_gt std (Fin 0) then std
                          else jsqrt (calculateVariance lib (dataset c)))
           in [''mean'' \<mapsto> mean, ''std'' \<mapsto> safeStd])
      | Uniform \<Rightarrow> uniformRobust (dataset c)
      | Exponential \<Rightarrow>
          (let mean = calculateMean lib (dataset c)
           in if js_le mean (Fin 0) then [''lambda'' \<mapsto> Fin 1]
              else [''lambda'' \<mapsto> jdiv (Fin 1) mean])
      | Poisson \<Rightarrow>
          (let mean = calculateMean lib (dataset c)
           in if js_le mean (Fin 0) then [''lambda'' \<mapsto> Fin 1]
              else [''lambda'' \<mapsto> mean]))"

text \<open>The body of the two nested loops, for one distribution and one test method: the
  \<open>try\<close> block pushes the entry built from the test's result, the \<open>catch\<close> block the
  entry of a failed test.\<close>

definition runPair ::
  "Statistics \<Rightarrow> GoFComponent \<Rightarrow> TestDistributionOption \<Rightarrow> TestMethodOption \<Rightarrow> AutoTestEntry"
where
  "runPair lib c distribution testMethod =
     (let alphaValue = significanceLevel c
      in case executeGoFTest lib (dataset c) (method_type testMethod) (dist_type distribution)
                alphaValue (paramsToUse lib c (dist_type distribution)) (numBins c) of
           Inr result \<Rightarrow>
             \<lparr>statistic = statistic result, pValue = pValue result,
              isReject = isReject result, criticalValue = criticalValue result,
              degreesOfFreedom = degreesOfFreedom result,
              distributionType = dist_type distribution,
              distributionName = dist_name distribution,
              testType = method_type testMethod, testName = method_name testMethod,
              confidenceLevel = jsub (Fin 1) alphaValue,
              isActualDistribution =
                map_option (\<lambda>i. info_type i = Some (dist_type distribution))
                  (distributionInfo c)\<rparr>
         | Inl testError \<Rightarrow>
             \<lparr>statistic = NaN, pValue = NaN, isReject = True, criticalValue = None,
              degreesOfFreedom = None,
              distributionType = dist_type distribution,
              distributionName = dist_name distribution,
              testType = method_type testMethod, testName = method_name testMethod,
              confidenceLevel = jsub (Fin 1) alphaValue,
              isActualDistribution = None\<rparr>)"

text \<open>The pairs in the order of the loops, and \<open>testResults\<close> after them.\<close>

definition autoTestPairs :: "(TestDistributionOption \<times> TestMethodOption) list" where
  "autoTestPairs =
     concat (map (\<lambda>distribution.
                    map (Pair distribution)
                      (filter (\<lambda>method. method_type method \<in> set (supportedTests distribution))
                         testMethodOptions))
               distributionOptions)"

definition testResults :: "Statistics \<Rightarrow> GoFComponent \<Rightarrow> AutoTestEntry list" where
  "testResults lib c = map (\<lambda>(distribution, testMethod). runPair lib c distribution testMethod)
                         autoTestPairs"

definition methodWeightMap :: "GoFTestType \<rightharpoonup> jsnum" where
  "methodWeightMap =
     [KolmogorovSmirnov \<mapsto> lit 1, ChiSquare \<mapsto> lit (9 / 10),
      AndersonDarling \<mapsto> lit (11 / 10), JarqueBera \<mapsto> lit (8 / 10)]"

definition methodWeight :: "GoFTestType \<Rightarrow> jsnum" where
  "methodWeight t = js_or (methodWeightMap t) (lit 1)"

definition scoreEntry :: "AutoTestEntry \<Rightarrow> ScoredEntry" where
  "scoreEntry result =
     (let pValueScore = pValue result;
          significanceBonus = (if js_gt (pValue result) (lit (1 / 10)) then lit (5 / 100)
                               else Fin 0);
          score = jmul (jadd pValueScore significanceBonus) (methodWeight (testType result))
      in AutoTestEntry.extend result (ScoredEntry.fields score))"

definition rankEntry :: "nat \<times> ScoredEntry \<Rightarrow> RankedEntry" where
  "rankEntry p = ScoredEntry.extend (snd p) (RankedEntry.fields (fst p + 1))"

definition sortedResults :: "AutoTestEntry list \<Rightarrow> RankedEntry list" where
  "sortedResults results =
     map rankEntry
       (enumerate 0
          (js_sort (\<lambda>a b. jsub (combinedScore b) (combinedScore a))
             (map scoreEntry (filter (\<lambda>result. \<not> isNaN (pValue result)) results))))"

definition accuracyOf :: "GoFComponent \<Rightarrow> RankedEntry list \<Rightarrow> RankedEntry \<Rightarrow> Accuracy option" where
  "accuracyOf c ranked recommended =
     (case distributionInfo c of
        None \<Rightarrow> None
      | Some info \<Rightarrow>
          (case info_type info of
             None \<Rightarrow> None
           | Some t \<Rightarrow>
               (case find (\<lambda>result. distributionType result = t) ranked of
                  None \<Rightarrow> None
                | Some actual \<Rightarrow>
                    Some \<lparr>isRecommended = (distributionType recommended = t),
                          acc_rank = rank actual, acc_pValue = pValue actual\<rparr>)))"

text \<open>The three checks at the head of \<open>performAutoTest\<close>, in their order.\<close>

definition autoTestError :: "GoFComponent \<Rightarrow> gof_error option" where
  "autoTestError c =
     (let alpha = significanceLevel c
      in if dataset c = [] then Some DatasetRequired
         else if isNaN alpha \<or> js_le alpha (Fin 0) \<or> js_ge alpha (Fin 1)
         then Some SignificanceLevelInvalid
         else if length (dataset c) < 5 then Some SampleSizeTooSmall
         else None)"

definition performAutoTest :: "Statistics \<Rightarrow> GoFComponent \<Rightarrow> GoFComponent" where
  "performAutoTest lib c =
     (let c1 = c\<lparr>error := None, autoTestRunning := True, autoTestResults := []\<rparr>
      in case autoTestError c of
           Some e \<Rightarrow> c1\<lparr>error := Some e, autoTestRunning := False\<rparr>
         | None \<Rightarrow>
             let ranked = sortedResults (testResults lib c);
                 c2 = c1\<lparr>autoTestResults := ranked\<rparr>;
                 c3 = (case ranked of
                         [] \<Rightarrow> c2
                       | recommended # _ \<Rightarrow>
                           c2\<lparr>recommendedDistribution := Some recommended,
                              actualDistributionAccuracy :=
                                accuracyOf c ranked recommended\<rparr>)
             in c3\<lparr>autoTestRunning := False\<rparr>)"

text \<open>The \<open>k\<close>-th point of the curve in the outcome of a call, when there is one.\<close>

definition curvePoint :: "(power_error + PowerResult) option \<Rightarrow> nat \<Rightarrow> PowerPoint option" where
  "curvePoint outcome k =
     (case outcome of
        Some (Inr r) \<Rightarrow> if k < length (powerData r) then Some (powerData r ! k) else None
      | _ \<Rightarrow> None)"

subsection \<open>Concrete inputs\<close>

text \<open>The scenario of a two-tailed test at level \<open>0.05\<close> with \<open>mu0 = 0\<close>, \<open>sigma = 1\<close> and
  \<open>n = 30\<close>; the same with \<open>n = 1\<close>, where the standard error is \<open>1\<close>; and a request for
  the sample size at level \<open>0.01\<close> and target power \<open>0.95\<close> for an effect size of \<open>1\<close>.\<close>

definition scenarioInput :: PowerInputs where
  "scenarioInput =
     \<lparr>alphaNum = lit (5 / 100), targetPowerNum = lit (8 / 10), sigmaNum = Fin 1,
      nNum = Fin 30, mu0Num = Fin 0, effectSize = None\<rparr>"

definition unitInput :: PowerInputs where
  "unitInput =
     \<lparr>alphaNum = lit (5 / 100), targetPowerNum = lit (8 / 10), sigmaNum = Fin 1,
      nNum = Fin 1, mu0Num = Fin 0, effectSize = None\<rparr>"

definition strictInput :: PowerInputs where
  "strictInput =
     \<lparr>alphaNum = lit (1 / 100), targetPowerNum = lit (95 / 100), sigmaNum = Fin 1,
      nNum = Fin 30, mu0Num = Fin 0, effectSize = Some (Fin 1)\<rparr>"


subsection \<open>Notions of the statements\<close>

text \<open>A rational that is a binary64 value: rounding leaves it as it is, and it is
  not beyond the largest finite number. \<open>on_grid\<close> is the weaker property that every
  rounded value has, and \<open>regular\<close> lifts it to the numbers other than \<open>NaN\<close>.\<close>

definition representable :: "rat \<Rightarrow> bool" where
  "representable q = (rnd q = q \<and> ilog2 \<bar>q\<bar> < 1024)"

definition on_grid :: "rat \<Rightarrow> bool" where
  "on_grid a = (\<exists>k::int. a = of_int k * minSubnormal)"

fun regular :: "jsnum \<Rightarrow> bool" where
  "regular NaN = False"
| "regular (Fin a) = on_grid a"
| "regular _ = True"

text \<open>The weights as the specification lists them, for the four tests that it names.\<close>

fun methodWeight_spec :: "GoFTestType \<Rightarrow> jsnum option" where
  "methodWeight_spec KolmogorovSmirnov = Some (lit 1)"
| "methodWeight_spec ChiSquare = Some (lit (9 / 10))"
| "methodWeight_spec AndersonDarling = Some (lit (11 / 10))"
| "methodWeight_spec JarqueBera = Some (lit (8 / 10))"
| "methodWeight_spec ShapiroWilk = None"

text \<open>The outcome of the call that \<open>runPair\<close> makes for a pair, and that it is a \<open>throw\<close>.\<close>

definition pairResult ::
  "Statistics \<Rightarrow> GoFComponent \<Rightarrow> TestDistributionOption \<times> TestMethodOption
     \<Rightarrow> thrown + GoFTestResult"
where
  "pairResult lib c p =
     executeGoFTest lib (dataset c) (method_type (snd p)) (dist_type (fst p))
       (significanceLevel c) (paramsToUse lib c (dist_type (fst p))) (numBins c)"

definition pairThrows ::
  "Statistics \<Rightarrow> GoFComponent \<Rightarrow> TestDistributionOption \<times> TestMethodOption \<Rightarrow> bool"
where
  "pairThrows lib c p = isl (pairResult lib c p)"

text \<open>Modelled from the spec: \<open>calculateMean\<close> of \<open>utils/statistics\<close>, which is not among the
  sources, is the arithmetic mean of the sample: the sum of the values, added from
  the left, divided by their number.\<close>

definition arithmeticMean :: "jsnum list \<Rightarrow> jsnum" where
  "arithmeticMean xs = jdiv (foldl jadd (Fin 0) xs) (Fin (of_nat (length xs)))"

text \<open>
  A stand-in for \<open>utils/statistics\<close> to run the component on: the mean is the arithmetic
  mean, the standard deviation and the variance are \<open>1\<close>, the chi-square test throws,
  and every other test reports the statistic \<open>1\<close> and the p-value \<open>0.5\<close> for the normal
  distribution and \<open>0.05\<close> for the others, rejecting exactly when the p-value is below
  the level. \<open>sampleComponent\<close> holds a sample of six values at level \<open>0.1\<close>.
\<close>

definition sampleTest ::
  "jsnum list \<Rightarrow> GoFTestType \<Rightarrow> DistributionTypeForGoF \<Rightarrow> jsnum \<Rightarrow> params \<Rightarrow> jsnum
     \<Rightarrow> thrown + GoFTestResult"
where
  "sampleTest ds t d a ps nb =
     (if t = ChiSquare then Inl (Thrown ''expected frequencies'')
      else Inr \<lparr>statistic = Fin 1,
                pValue = (if d = Normal then lit (5 / 10) else lit (5 / 100)),
                isReject = js_lt (if d = Normal then lit (5 / 10) else lit (5 / 100)) a,
                criticalValue = None, degreesOfFreedom = None\<rparr>)"

definition sampleLib :: Statistics where
  "sampleLib =
     \<lparr>calculateMean = arithmeticMean, calculateStd = (\<lambda>xs. Fin 1),
      calculateVariance = (\<lambda>xs. Fin 1), executeGoFTest = sampleTest\<rparr>"

definition sampleComponent :: GoFComponent where
  "sampleComponent =
     \<lparr>dataset = [Fin 1, Fin 5, Fin 3, Fin 2, Fin 4, Fin 9], basicStats = None,
      distributionInfo = Some \<lparr>info_type = Some Uniform\<rparr>,
      state_distributionType = Exponential, significanceLevel = lit (1 / 10),
      numBins = Fin 10, autoEstimateParams = True, estimatedParams = Map.empty,
      error = None, autoTestRunning = False, autoTestResults = [],
      recommendedDistribution = None, actualDistributionAccuracy = None\<rparr>"


subsection \<open>The test engine as the specification describes it\<close>

text \<open>
  Modelled from the spec: \<open>executeGoFTest\<close> of \<open>utils/statistics\<close>, which is not among the
  sources. The specification gives it the interface
  \<open>executeGoFTest(sample, testType, distributionType, alpha, params, {numBins})\<close> and
  says of it: invalid parameters (\<open>alpha\<close> outside \<open>(0,1)\<close>, \<open>numBins\<close> outside
  \<open>[5,50]\<close>), a sample of fewer than five values and a test that is not applicable to
  the distribution are detected at the boundary and rejected, the last one by an engine
  that refuses to execute; the numeric core behind the boundary never raises; each
  test produces a statistic, a p-value, a critical value and degrees of freedom where
  applicable; and every test reports \<open>isReject = pValue < alpha\<close>. A test is
  applicable as the specification lists it: Kolmogorov-Smirnov to the normal, uniform
  and exponential distributions, chi-square to the four distributions, Anderson-Darling
  and Jarque-Bera to the normal distribution, and a test that the specification does
  not have to none. The numbers that the numeric core computes are a parameter, so that
  what is proved holds for every way of computing them.
\<close>

record TestNumbers =
  num_statistic :: jsnum
  num_pValue :: jsnum
  num_criticalValue :: "jsnum option"
  num_degreesOfFreedom :: "jsnum option"

type_synonym NumericCore =
  "GoFTestType \<Rightarrow> DistributionTypeForGoF \<Rightarrow> jsnum list \<Rightarrow> jsnum \<Rightarrow> params \<Rightarrow> jsnum
     \<Rightarrow> TestNumbers"

fun applicable_spec :: "GoFTestType \<Rightarrow> DistributionTypeForGoF \<Rightarrow> bool" where
  "applicable_spec KolmogorovSmirnov d = (d \<in> set [Normal, Uniform, Exponential])"
| "applicable_spec ChiSquare d = (d \<in> set [Normal, Uniform, Exponential, Poisson])"
| "applicable_spec AndersonDarling d = (d = Normal)"
| "applicable_spec JarqueBera d = (d = Normal)"
| "applicable_spec ShapiroWilk d = False"

definition executeGoFTest_spec ::
  "NumericCore \<Rightarrow> jsnum list \<Rightarrow> GoFTestType \<Rightarrow> DistributionTypeForGoF \<Rightarrow> jsnum \<Rightarrow> params
     \<Rightarrow> jsnum \<Rightarrow> thrown + GoFTestResult"
where
  "executeGoFTest_spec core sample t d alpha ps nb =
     (if isNaN alpha \<or> js_le alpha (Fin 0) \<or> js_ge alpha (Fin 1)
      then Inl (Thrown ''InvalidParameter'')
      else if js_ge nb (Fin 5) \<and> js_le nb (Fin 50)
      then if length sample < 5 then Inl (Thrown ''InsufficientSample'')
           else if applicable_spec t d
           then let v = core t d sample alpha ps nb
                in Inr \<lparr>statistic = num_statistic v, pValue = num_pValue v,
                          isReject = js_lt (num_pValue v) alpha,
                          criticalValue = num_criticalValue v,
                          degreesOfFreedom = num_degreesOfFreedom v\<rparr>
           else Inl (Thrown ''UnsupportedCombination'')
      else Inl (Thrown ''InvalidParameter''))"

text \<open>The imports of the component with this engine in the place of \<open>executeGoFTest\<close>.\<close>

definition withEngine :: "Statistics \<Rightarrow> NumericCore \<Rightarrow> Statistics" where
  "withEngine lib core = lib\<lparr>executeGoFTest := executeGoFTest_spec core\<rparr>"

text \<open>A numeric core to run the engine on: every test has the statistic \<open>1\<close> and the
  p-value \<open>0.5\<close> for the normal distribution and \<open>0.05\<close> for the others.\<close>

definition sampleCore :: NumericCore where
  "sampleCore t d sample alpha ps nb =
     \<lparr>num_statistic = Fin 1,
      num_pValue = (if d = Normal then lit (5 / 10) else lit (5 / 100)),
      num_criticalValue = None, num_degreesOfFreedom = None\<rparr>"

text \<open>The same component with a sample of negative values and with a sample of zeros,
  and a sample of seven values with an outlier.\<close>

definition negativeSample :: GoFComponent where
  "negativeSample =
     sampleComponent\<lparr>dataset := [Fin (- 1), Fin (- 2), Fin (- 3), Fin (- 1), Fin (- 3)]\<rparr>"

definition zeroSample :: GoFComponent where
  "zeroSample = sampleComponent\<lparr>dataset := [Fin 0, Fin 0, Fin 0, Fin 0, Fin 0]\<rparr>"

definition quartileSample :: "rat list" where
  "quartileSample = [1, 5, 3, 2, 4, 9, 100]"


section \<open>Properties of the arithmetic\<close>

subsection \<open>The binary exponent\<close>

lemma ilog2_step_up: "2 \<le> x \<Longrightarrow> ilog2 x = ilog2 (x / 2) + 1"
  by (subst ilog2.simps) simp

lemma ilog2_step_down: "0 < x \<Longrightarrow> x < 1 \<Longrightarrow> ilog2 x = ilog2 (x * 2) - 1"
  by (subst ilog2.simps) simp

lemma ilog2_unit: "1 \<le> x \<Longrightarrow> x < 2 \<Longrightarrow> ilog2 x = 0"
  by (subst ilog2.simps) simp

lemma ilog2_nonpos: "x \<le> 0 \<Longrightarrow> ilog2 x = 0"
  by (subst ilog2.simps) simp

lemma ilog2_bounds:
  "0 < x \<Longrightarrow> 2 powi ilog2 x \<le> x \<and> x < 2 powi (ilog2 x + 1)"
proof (induction x rule: ilog2.induct)
  case (1 x)
  show ?case
  proof (cases "2 \<le> x")
    case True
    have "2 powi ilog2 (x / 2) \<le> x / 2 \<and> x / 2 < 2 powi (ilog2 (x / 2) + 1)"
      using "1.IH"(1) True "1.prems" by simp
    then show ?thesis
      unfolding ilog2_step_up [OF True] by (simp add: power_int_add field_simps)
  next
    case False
    show ?thesis
    proof (cases "x < 1")
      case True
      have "2 powi ilog2 (x * 2) \<le> x * 2 \<and> x * 2 < 2 powi (ilog2 (x * 2) + 1)"
        using "1.IH"(2) True False "1.prems" by simp
      then show ?thesis
        unfolding ilog2_step_down [OF "1.prems" True]
        by (simp add: power_int_add power_int_diff field_simps)
    next
      case nlt: False
      then have "ilog2 x = 0"
        using False by (intro ilog2_unit) simp_all
      then show ?thesis
        using False nlt by simp
    qed
  qed
qed

lemma ilog2_mono:
  assumes "0 < x" "x \<le> y"
  shows "ilog2 x \<le> ilog2 y"
proof -
  have "(2::rat) powi ilog2 x \<le> x"
    using ilog2_bounds assms by simp
  also have "x \<le> y"
    by fact
  also have "y < 2 powi (ilog2 y + 1)"
    using ilog2_bounds assms by simp
  finally have "(2::rat) powi ilog2 x < 2 powi (ilog2 y + 1)" .
  then have "\<not> ilog2 y + 1 \<le> ilog2 x"
    using power_int_increasing [of "ilog2 y + 1" "ilog2 x" "2::rat"] by auto
  then show ?thesis
    by simp
qed

lemma ilog2_eqI:
  assumes "2 powi e \<le> x" "x < 2 powi (e + 1)"
  shows "ilog2 x = e"
proof -
  have x: "0 < x"
    using assms(1) zero_less_power_int [of "2::rat" e] by linarith
  have "(2::rat) powi ilog2 x \<le> x" "x < 2 powi (ilog2 x + 1)"
    using ilog2_bounds x by simp_all
  then have "(2::rat) powi ilog2 x < 2 powi (e + 1)" "(2::rat) powi e < 2 powi (ilog2 x + 1)"
    using assms by linarith+
  then have "\<not> e + 1 \<le> ilog2 x" "\<not> ilog2 x + 1 \<le> e"
    using power_int_increasing [of "e + 1" "ilog2 x" "2::rat"]
      power_int_increasing [of "ilog2 x + 1" e "2::rat"] by auto
  then show ?thesis
    by simp
qed

subsection \<open>Rounding is odd, monotone and lands on the grid of the subnormal numbers\<close>

lemma roundHalfEven_of_int [simp]: "roundHalfEven (of_int n) = n"
  by (simp add: roundHalfEven_def)

lemma roundHalfEven_cases:
  "roundHalfEven q = \<lfloor>q\<rfloor> \<or> roundHalfEven q = \<lfloor>q\<rfloor> + 1"
  by (simp add: roundHalfEven_def Let_def)

lemma roundHalfEven_mono:
  assumes "x \<le> y"
  shows "roundHalfEven x \<le> roundHalfEven y"
proof (cases "\<lfloor>x\<rfloor> = \<lfloor>y\<rfloor>")
  case True
  then show ?thesis
    using assms by (auto simp: roundHalfEven_def Let_def)
next
  case False
  then have "\<lfloor>x\<rfloor> + 1 \<le> \<lfloor>y\<rfloor>"
    using assms floor_mono [of x y] by linarith
  moreover have "roundHalfEven x \<le> \<lfloor>x\<rfloor> + 1" "\<lfloor>y\<rfloor> \<le> roundHalfEven y"
    using roundHalfEven_cases [of x] roundHalfEven_cases [of y] by auto
  ultimately show ?thesis
    by linarith
qed

lemma roundHalfEven_minus: "roundHalfEven (- q) = - roundHalfEven q"
proof (cases "q \<in> \<int>")
  case True
  then obtain n where "q = of_int n"
    by (auto elim: Ints_cases)
  then show ?thesis
    by (simp add: roundHalfEven_def flip: of_int_minus)
next
  case False
  then have "q \<noteq> rat_of_int \<lfloor>q\<rfloor>"
    by (metis Ints_of_int)
  then have f: "\<lfloor>- q\<rfloor> = - \<lfloor>q\<rfloor> - 1"
    by (simp add: floor_minus ceiling_altdef)
  show ?thesis
    unfolding roundHalfEven_def Let_def f by (auto simp: field_simps)
qed

lemma ulpExp_minus [simp]: "ulpExp (- x) = ulpExp x"
  by (simp add: ulpExp_def)

lemma rnd_minus: "rnd (- x) = - rnd x"
  by (simp add: rnd_def Let_def roundHalfEven_minus)

lemma rnd_0 [simp]: "rnd 0 = 0"
  using roundHalfEven_of_int [of 0] by (simp add: rnd_def Let_def del: roundHalfEven_of_int)

lemma rnd_le:
  assumes "x \<le> of_int n * 2 powi ulpExp x"
  shows "rnd x \<le> of_int n * 2 powi ulpExp x"
proof -
  have u: "(0::rat) < 2 powi ulpExp x"
    by simp
  have "x / 2 powi ulpExp x \<le> of_int n"
    using assms u by (simp add: field_simps)
  then have "roundHalfEven (x / 2 powi ulpExp x) \<le> n"
    using roundHalfEven_mono [of "x / 2 powi ulpExp x" "of_int n"] by simp
  then have "rat_of_int (roundHalfEven (x / 2 powi ulpExp x)) \<le> of_int n"
    by simp
  then show ?thesis
    unfolding rnd_def Let_def using u by (simp add: mult_right_mono)
qed

lemma rnd_ge:
  assumes "of_int n * 2 powi ulpExp x \<le> x"
  shows "of_int n * 2 powi ulpExp x \<le> rnd x"
proof -
  have u: "(0::rat) < 2 powi ulpExp x"
    by simp
  have "of_int n \<le> x / 2 powi ulpExp x"
    using assms u by (simp add: field_simps)
  then have "n \<le> roundHalfEven (x / 2 powi ulpExp x)"
    using roundHalfEven_mono [of "of_int n" "x / 2 powi ulpExp x"] by simp
  then have "rat_of_int n \<le> of_int (roundHalfEven (x / 2 powi ulpExp x))"
    by simp
  then show ?thesis
    unfolding rnd_def Let_def using u by (simp add: mult_right_mono)
qed

lemma rnd_nonneg: "0 \<le> x \<Longrightarrow> 0 \<le> rnd x"
  using rnd_ge [of 0 x] by simp

lemma ulpExp_mono:
  assumes "0 < x" "x \<le> y"
  shows "ulpExp x \<le> ulpExp y"
  using ilog2_mono [of x y] assms by (simp add: ulpExp_def)

lemma rnd_mono_pos:
  assumes "0 < x" "x \<le> y"
  shows "rnd x \<le> rnd y"
proof (cases "ulpExp x = ulpExp y")
  case True
  have u: "(0::rat) < 2 powi ulpExp y"
    by simp
  have "x / 2 powi ulpExp y \<le> y / 2 powi ulpExp y"
    using assms u by (simp add: divide_right_mono)
  then have "rat_of_int (roundHalfEven (x / 2 powi ulpExp y))
      \<le> of_int (roundHalfEven (y / 2 powi ulpExp y))"
    using roundHalfEven_mono by simp
  then show ?thesis
    unfolding rnd_def Let_def True using u by (simp add: mult_right_mono)
next
  case False
  then have lt: "ulpExp x < ulpExp y"
    using ulpExp_mono [OF assms] by simp
  have y: "0 < y"
    using assms by simp
  have "ilog2 \<bar>y\<bar> = ulpExp y + 52"
    using lt by (simp add: ulpExp_def max_def split: if_splits)
  then have ylow: "2 powi (ulpExp y + 52) \<le> y"
    using ilog2_bounds [of y] y by simp
  have "x < 2 powi (ilog2 x + 1)"
    using ilog2_bounds assms by simp
  also have "\<dots> \<le> 2 powi (ulpExp x + 53)"
    using assms by (intro power_int_increasing) (simp_all add: ulpExp_def)
  finally have xup: "x \<le> 2 powi (ulpExp x + 53)"
    by simp
  have "rnd x \<le> of_int (2 ^ 53) * 2 powi ulpExp x"
    by (rule rnd_le) (use xup in \<open>simp add: power_int_add\<close>)
  also have "\<dots> = 2 powi (ulpExp x + 53)"
    by (simp add: power_int_add)
  also have "\<dots> \<le> 2 powi (ulpExp y + 52)"
    using lt by (intro power_int_increasing) simp_all
  also have "\<dots> = of_int (2 ^ 52) * 2 powi ulpExp y"
    by (simp add: power_int_add)
  also have "\<dots> \<le> rnd y"
    by (rule rnd_ge) (use ylow in \<open>simp add: power_int_add\<close>)
  finally show ?thesis .
qed

lemma rnd_mono:
  assumes "x \<le> y"
  shows "rnd x \<le> rnd y"
proof -
  consider "0 < x" | "x \<le> 0" "0 \<le> y" | "y < 0"
    by linarith
  then show ?thesis
  proof cases
    case 1
    then show ?thesis
      using rnd_mono_pos assms by simp
  next
    case 2
    have "rnd x \<le> 0"
      using rnd_nonneg [of "- x"] 2 by (simp add: rnd_minus)
    moreover have "0 \<le> rnd y"
      using rnd_nonneg 2 by simp
    ultimately show ?thesis
      by simp
  next
    case 3
    then have "rnd (- y) \<le> rnd (- x)"
      using rnd_mono_pos [of "- y" "- x"] assms by simp
    then show ?thesis
      by (simp add: rnd_minus)
  qed
qed

lemma power_int_grid:
  assumes "m \<le> e"
  shows "\<exists>k::int. (2::rat) powi e = of_int k * 2 powi m"
proof -
  have "(2::rat) powi e = 2 powi (e - m) * 2 powi m"
    by (simp flip: power_int_add)
  also have "(2::rat) powi (e - m) = of_int (2 ^ nat (e - m))"
    using assms by (simp add: power_int_def)
  finally show ?thesis
    by blast
qed

lemma rnd_grid: "\<exists>k::int. rnd x = of_int k * minSubnormal"
proof -
  have "- 1074 \<le> ulpExp x"
    by (simp add: ulpExp_def)
  then obtain k :: int where "(2::rat) powi ulpExp x = of_int k * minSubnormal"
    unfolding minSubnormal_def using power_int_grid by blast
  then have "rnd x = of_int (roundHalfEven (x / 2 powi ulpExp x) * k) * minSubnormal"
    unfolding rnd_def Let_def by simp
  then show ?thesis
    by blast
qed

lemma rnd_minSubnormal: "rnd minSubnormal = minSubnormal"
proof -
  have "ilog2 minSubnormal = - 1074"
    unfolding minSubnormal_def by (rule ilog2_eqI) simp_all
  then have "ulpExp minSubnormal = - 1074"
    by (simp add: ulpExp_def minSubnormal_def)
  then show ?thesis
    using roundHalfEven_of_int [of 1]
    by (simp add: rnd_def Let_def minSubnormal_def del: roundHalfEven_of_int)
qed

text \<open>The difference of two distinct values of the grid does not round to zero: the
  sign of a rounded difference is the sign of the exact one.\<close>

lemma rnd_on_grid [simp]: "on_grid (rnd x)"
  unfolding on_grid_def by (rule rnd_grid)

lemma grid_diff_pos:
  assumes "on_grid a" "on_grid b" "a < b"
  shows "0 < rnd (b - a)"
proof -
  obtain ka kb :: int where k: "a = of_int ka * minSubnormal" "b = of_int kb * minSubnormal"
    using assms unfolding on_grid_def by auto
  have t: "0 < minSubnormal"
    by (simp add: minSubnormal_def)
  have "rat_of_int ka < of_int kb"
    using assms(3) t unfolding k by (simp add: mult_less_cancel_right)
  then have "1 \<le> kb - ka"
    by simp
  then have "(1::rat) \<le> of_int (kb - ka)"
    using of_int_le_iff [of 1 "kb - ka", where ?'a = rat] by simp
  then have "1 * minSubnormal \<le> of_int (kb - ka) * minSubnormal"
    using t by (intro mult_right_mono) simp_all
  then have "minSubnormal \<le> b - a"
    unfolding k by (simp add: algebra_simps)
  then have "rnd minSubnormal \<le> rnd (b - a)"
    by (rule rnd_mono)
  then show ?thesis
    using t by (simp add: rnd_minSubnormal)
qed

lemma grid_diff_sign:
  assumes "on_grid a" "on_grid b"
  shows "0 < rnd (b - a) \<longleftrightarrow> a < b"
proof
  assume pos: "0 < rnd (b - a)"
  show "a < b"
  proof (rule ccontr)
    assume "\<not> a < b"
    then have "b - a \<le> 0"
      by simp
    then have "rnd (b - a) \<le> rnd 0"
      by (rule rnd_mono)
    then show False
      using pos by simp
  qed
next
  assume "a < b"
  then show "0 < rnd (b - a)"
    using grid_diff_pos assms by simp
qed

subsection \<open>Evaluation on numerals\<close>

lemma floor_rat_numeral: "\<lfloor>numeral a / numeral b :: rat\<rfloor> = numeral a div numeral b"
  by (metis floor_divide_of_int_eq of_int_numeral)

lemma floor_rat_neg_numeral:
  "\<lfloor>- (numeral a / numeral b) :: rat\<rfloor> = - numeral a div numeral b"
  by (metis floor_divide_of_int_eq of_int_numeral of_int_minus minus_divide_left)

lemmas fl_eval = fl_def rnd_def ulpExp_def roundHalfEven_def Let_def lit_def
  ilog2_step_up ilog2_step_down ilog2_unit ilog2_nonpos jsub_def js_le_def js_gt_def js_ge_def
  jmax_def jmin_def isNaN_def floor_rat_numeral floor_rat_neg_numeral

lemma isqrt_small: "n < 2 \<Longrightarrow> isqrt n = max n 0"
  by (subst isqrt.simps) simp

lemma isqrt_step:
  "2 \<le> n \<Longrightarrow> isqrt n = (let r = 2 * isqrt (n div 4)
                            in if (r + 1) * (r + 1) \<le> n then r + 1 else r)"
  by (subst isqrt.simps) simp

lemmas sqrt_eval = sqrtRnd_def isqrt_small isqrt_step

lemma fl_not_NaN [simp]: "fl x \<noteq> NaN"
  by (simp add: fl_def Let_def)

lemma fl_0 [simp]: "fl 0 = Fin 0"
  by (simp add: fl_def ilog2_nonpos)

subsection \<open>The comparator of a numeric sort\<close>

lemma fl_regular [simp]: "regular (fl x)"
  by (simp add: fl_def Let_def)

lemma fl_pos_iff: "js_lt (Fin 0) (fl x) \<longleftrightarrow> 0 < rnd x"
  by (simp add: fl_def Let_def)

text \<open>The comparator \<open>(a, b) => a - b\<close> is positive exactly when \<open>b < a\<close>.\<close>

lemma jsub_pos_iff:
  assumes "regular a" "regular b"
  shows "js_gt (jsub a b) (Fin 0) \<longleftrightarrow> js_lt b a"
proof (cases a)
  case (Fin x)
  then show ?thesis
    using assms grid_diff_sign [of _ x]
    by (cases b) (simp_all add: jsub_def js_gt_def fl_pos_iff)
qed (use assms in \<open>cases b; simp add: jsub_def js_gt_def\<close>)+

lemma regular_not_NaN: "regular a \<Longrightarrow> a \<noteq> NaN"
  by (cases a) simp_all

lemma js_ge_total: "a \<noteq> NaN \<Longrightarrow> b \<noteq> NaN \<Longrightarrow> js_ge a b \<or> js_ge b a"
  by (cases a; cases b) (auto simp: js_ge_def js_le_def)

lemma js_ge_trans: "js_ge a b \<Longrightarrow> js_ge b c \<Longrightarrow> js_ge a c"
  by (cases a; cases b; cases c) (auto simp: js_ge_def js_le_def)

lemma js_lt_iff_not_ge: "a \<noteq> NaN \<Longrightarrow> b \<noteq> NaN \<Longrightarrow> js_lt a b \<longleftrightarrow> \<not> js_ge a b"
  by (simp add: js_ge_def js_le_def)

lemma js_lt_neq: "js_lt a b \<Longrightarrow> a \<noteq> b"
  by (cases a; cases b) auto

subsection \<open>Values that rounding leaves alone\<close>

lemma ilog2_less:
  assumes "0 < x" "x < 2 powi k"
  shows "ilog2 x < k"
proof -
  have "(2::rat) powi ilog2 x \<le> x"
    using ilog2_bounds assms(1) by simp
  then have "(2::rat) powi ilog2 x < 2 powi k"
    using assms(2) by simp
  then have "\<not> k \<le> ilog2 x"
    using power_int_increasing [of k "ilog2 x" "2::rat"] by auto
  then show ?thesis
    by simp
qed

lemma rnd_exact:
  assumes "\<bar>m\<bar> < 2 ^ 53" "- 1074 \<le> e"
  shows "rnd (of_int m * 2 powi e) = of_int m * 2 powi e"
    and "ilog2 \<bar>of_int m * 2 powi e\<bar> < max (e + 53) 1"
proof -
  define x :: rat where "x = of_int m * 2 powi e"
  have both: "rnd x = x \<and> ilog2 \<bar>x\<bar> < max (e + 53) 1"
  proof (cases "m = 0")
    case True
    then show ?thesis
      by (simp add: x_def ilog2_nonpos)
  next
    case False
    have ax: "\<bar>x\<bar> = of_int \<bar>m\<bar> * 2 powi e"
      by (simp add: x_def abs_mult)
    have pos: "0 < \<bar>x\<bar>"
      using False by (simp add: x_def)
    have "rat_of_int \<bar>m\<bar> < 2 ^ 53"
      using assms(1) of_int_less_iff [of "\<bar>m\<bar>" "2 ^ 53", where ?'a = rat] by simp
    then have "\<bar>x\<bar> < 2 ^ 53 * 2 powi e"
      unfolding ax by (intro mult_strict_right_mono) simp_all
    also have "\<dots> = 2 powi (e + 53)"
      by (simp add: power_int_add)
    finally have lg: "ilog2 \<bar>x\<bar> < e + 53"
      using pos by (intro ilog2_less)
    then have u: "ulpExp x \<le> e"
      using assms(2) by (simp add: ulpExp_def)
    define d where "d = nat (e - ulpExp x)"
    have "(2::rat) powi e = 2 powi (e - ulpExp x) * 2 powi ulpExp x"
      by (simp flip: power_int_add)
    also have "(2::rat) powi (e - ulpExp x) = of_int (2 ^ d)"
      using u by (simp add: power_int_def d_def)
    finally have e_eq: "(2::rat) powi e = of_int (2 ^ d) * 2 powi ulpExp x" .
    have xd: "x = of_int (m * 2 ^ d) * 2 powi ulpExp x"
    proof -
      have "x = of_int m * 2 powi e"
        by (simp add: x_def)
      also have "\<dots> = of_int m * (of_int (2 ^ d) * 2 powi ulpExp x)"
        by (simp only: e_eq)
      finally show ?thesis
        by simp
    qed
    have "x / 2 powi ulpExp x = of_int (m * 2 ^ d) * 2 powi ulpExp x / 2 powi ulpExp x"
      using xd by simp
    also have "\<dots> = of_int (m * 2 ^ d)"
      by simp
    finally have "roundHalfEven (x / 2 powi ulpExp x) = m * 2 ^ d"
      by (simp only: roundHalfEven_of_int)
    then have "rnd x = of_int (m * 2 ^ d) * 2 powi ulpExp x"
      unfolding rnd_def Let_def by simp
    also have "\<dots> = x"
      using xd by simp
    finally show ?thesis
      using lg by simp
  qed
  show "rnd (of_int m * 2 powi e) = of_int m * 2 powi e"
    and "ilog2 \<bar>of_int m * 2 powi e\<bar> < max (e + 53) 1"
    using both unfolding x_def by simp_all
qed

lemma fl_exact:
  assumes "\<bar>m\<bar> < 2 ^ 53" "- 1074 \<le> e" "e \<le> 970"
  shows "fl (of_int m * 2 powi e) = Fin (of_int m * 2 powi e)"
proof -
  have "ilog2 \<bar>of_int m * 2 powi e\<bar> < 1024"
    using rnd_exact(2) [OF assms(1,2)] assms(3) by simp
  then show ?thesis
    using rnd_exact(1) [OF assms(1,2)] by (simp add: fl_def Let_def)
qed

lemma fl_of_int:
  assumes "\<bar>m\<bar> < 2 ^ 53"
  shows "fl (of_int m) = Fin (of_int m)"
  using fl_exact [OF assms, of 0] by simp

lemma fl_quarters:
  assumes "\<bar>m\<bar> < 2 ^ 53"
  shows "fl (of_int m / 4) = Fin (of_int m / 4)"
  using fl_exact [OF assms, of "- 2"] by simp

subsection \<open>The sort\<close>

lemma set_insert_by [simp]: "set (insert_by cmp x xs) = insert x (set xs)"
  by (induction xs) auto

lemma mset_insert_by [simp]: "mset (insert_by cmp x xs) = add_mset x (mset xs)"
  by (induction xs) auto

lemma length_insert_by [simp]: "length (insert_by cmp x xs) = Suc (length xs)"
  by (induction xs) auto

lemma set_js_sort [simp]: "set (js_sort cmp xs) = set xs"
  unfolding js_sort_def by (induction xs) auto

lemma mset_js_sort [simp]: "mset (js_sort cmp xs) = mset xs"
  unfolding js_sort_def by (induction xs) auto

lemma length_js_sort [simp]: "length (js_sort cmp xs) = length xs"
  unfolding js_sort_def by (induction xs) auto

lemma js_sort_Cons: "js_sort cmp (x # xs) = insert_by cmp x (js_sort cmp xs)"
  by (simp add: js_sort_def)

lemma js_sort_Nil [simp]: "js_sort cmp [] = []"
  by (simp add: js_sort_def)

text \<open>Stability: an element is moved only past elements from which the comparator
  tells it apart.\<close>

lemma filter_insert_by:
  assumes "\<And>y. y \<in> set xs \<Longrightarrow> js_gt (cmp x y) (Fin 0) \<Longrightarrow> \<not> (P x \<and> P y)"
  shows "filter P (insert_by cmp x xs) = (if P x then x # filter P xs else filter P xs)"
  using assms by (induction xs) auto

lemma filter_js_sort:
  assumes "\<And>x y. x \<in> set xs \<Longrightarrow> y \<in> set xs \<Longrightarrow> js_gt (cmp x y) (Fin 0) \<Longrightarrow> \<not> (P x \<and> P y)"
  shows "filter P (js_sort cmp xs) = filter P xs"
  using assms
proof (induction xs)
  case Nil
  then show ?case by simp
next
  case (Cons x xs)
  have "filter P (insert_by cmp x (js_sort cmp xs))
      = (if P x then x # filter P (js_sort cmp xs) else filter P (js_sort cmp xs))"
    by (rule filter_insert_by) (use Cons.prems in auto)
  moreover have "filter P (js_sort cmp xs) = filter P xs"
    by (rule Cons.IH) (use Cons.prems in auto)
  ultimately show ?case
    by (simp add: js_sort_Cons)
qed

text \<open>Order: where the comparator is positive exactly on the pairs that a total
  preorder \<open>le\<close> puts the other way round, the result is sorted by \<open>le\<close>.\<close>

lemma sorted_insert_by:
  assumes cmp: "\<forall>y \<in> set xs. js_gt (cmp x y) (Fin 0) \<longleftrightarrow> \<not> le x y"
    and total: "\<forall>y \<in> set xs. le x y \<or> le y x"
    and trans: "\<forall>y \<in> set xs. \<forall>z \<in> set xs. le x y \<longrightarrow> le y z \<longrightarrow> le x z"
    and srt: "sorted_wrt le xs"
  shows "sorted_wrt le (insert_by cmp x xs)"
  using assms
proof (induction xs)
  case Nil
  then show ?case by simp
next
  case (Cons y ys)
  have ys: "sorted_wrt le ys" and y_ys: "\<forall>z \<in> set ys. le y z"
    using Cons.prems(4) by simp_all
  have sub: "\<And>z. z \<in> set ys \<Longrightarrow> z \<in> set (y # ys)" and y: "y \<in> set (y # ys)"
    by simp_all
  show ?case
  proof (cases "js_gt (cmp x y) (Fin 0)")
    case True
    then have "\<not> le x y"
      using Cons.prems(1) y by blast
    then have yx: "le y x"
      using Cons.prems(2) y by blast
    have "sorted_wrt le (insert_by cmp x ys)"
    proof (rule Cons.IH)
      show "\<forall>y \<in> set ys. js_gt (cmp x y) (Fin 0) \<longleftrightarrow> \<not> le x y"
        using Cons.prems(1) sub by blast
      show "\<forall>y \<in> set ys. le x y \<or> le y x"
        using Cons.prems(2) sub by blast
      show "\<forall>y \<in> set ys. \<forall>z \<in> set ys. le x y \<longrightarrow> le y z \<longrightarrow> le x z"
        using Cons.prems(3) sub by blast
      show "sorted_wrt le ys"
        by (rule ys)
    qed
    then have "sorted_wrt le (y # insert_by cmp x ys)"
      using yx y_ys by simp
    then show ?thesis
      using True by simp
  next
    case False
    then have xy: "le x y"
      using Cons.prems(1) y by blast
    have "\<forall>z \<in> set ys. le x z"
      using Cons.prems(3) xy y_ys sub y by blast
    then have "sorted_wrt le (x # y # ys)"
      using xy ys y_ys by simp
    then show ?thesis
      using False by simp
  qed
qed

lemma sorted_js_sort:
  assumes cmp: "\<forall>x \<in> set xs. \<forall>y \<in> set xs. js_gt (cmp x y) (Fin 0) \<longleftrightarrow> \<not> le x y"
    and total: "\<forall>x \<in> set xs. \<forall>y \<in> set xs. le x y \<or> le y x"
    and trans: "\<forall>x \<in> set xs. \<forall>y \<in> set xs. \<forall>z \<in> set xs. le x y \<longrightarrow> le y z \<longrightarrow> le x z"
  shows "sorted_wrt le (js_sort cmp xs)"
  using assms
proof (induction xs)
  case Nil
  show ?case by simp
next
  case (Cons x xs)
  have sub: "\<And>z. z \<in> set xs \<Longrightarrow> z \<in> set (x # xs)" and x: "x \<in> set (x # xs)"
    by simp_all
  have eq: "set (js_sort cmp xs) = set xs"
    by simp
  have 1: "\<forall>x \<in> set xs. \<forall>y \<in> set xs. js_gt (cmp x y) (Fin 0) \<longleftrightarrow> \<not> le x y"
    using Cons.prems(1) sub by blast
  have 2: "\<forall>x \<in> set xs. \<forall>y \<in> set xs. le x y \<or> le y x"
    using Cons.prems(2) sub by blast
  have 3: "\<forall>x \<in> set xs. \<forall>y \<in> set xs. \<forall>z \<in> set xs. le x y \<longrightarrow> le y z \<longrightarrow> le x z"
    using Cons.prems(3) sub by blast
  have srt: "sorted_wrt le (js_sort cmp xs)"
    using Cons.IH [OF 1 2 3] .
  have 4: "\<forall>y \<in> set (js_sort cmp xs). js_gt (cmp x y) (Fin 0) \<longleftrightarrow> \<not> le x y"
    unfolding eq using Cons.prems(1) sub x by blast
  have 5: "\<forall>y \<in> set (js_sort cmp xs). le x y \<or> le y x"
    unfolding eq using Cons.prems(2) sub x by blast
  have 6: "\<forall>y \<in> set (js_sort cmp xs). \<forall>z \<in> set (js_sort cmp xs). le x y \<longrightarrow> le y z \<longrightarrow> le x z"
    unfolding eq using Cons.prems(3) sub x by blast
  have "sorted_wrt le (insert_by cmp x (js_sort cmp xs))"
    using sorted_insert_by [where le = le and cmp = cmp and x = x and xs = "js_sort cmp xs", OF 4 5 6 srt] .
  then show ?case
    unfolding js_sort_Cons .
qed

lemma representable_grid: "representable q \<Longrightarrow> on_grid q"
  using rnd_on_grid [of q] by (simp add: representable_def)

lemma insert_by_Fin:
  assumes "on_grid x" "\<forall>y \<in> set ys. on_grid y"
  shows "insert_by (\<lambda>a b. jsub a b) (Fin x) (map Fin ys) = map Fin (insort x ys)"
  using assms
proof (induction ys)
  case Nil
  show ?case by simp
next
  case (Cons y ys)
  have "js_gt (jsub (Fin x) (Fin y)) (Fin 0) \<longleftrightarrow> y < x"
    using jsub_pos_iff [of "Fin x" "Fin y"] Cons.prems by simp
  moreover have "insert_by (\<lambda>a b. jsub a b) (Fin x) (map Fin ys) = map Fin (insort x ys)"
    using Cons.IH Cons.prems by simp
  ultimately show ?case
    by (auto simp: not_less)
qed

lemma js_sort_Fin:
  assumes "\<forall>q \<in> set qs. on_grid q"
  shows "js_sort (\<lambda>a b. jsub a b) (map Fin qs) = map Fin (sort qs)"
  using assms
proof (induction qs)
  case Nil
  show ?case by simp
next
  case (Cons q qs)
  have "js_sort (\<lambda>a b. jsub a b) (map Fin qs) = map Fin (sort qs)"
    using Cons.IH Cons.prems by simp
  moreover have "insert_by (\<lambda>a b. jsub a b) (Fin q) (map Fin (sort qs))
      = map Fin (insort q (sort qs))"
    by (rule insert_by_Fin) (use Cons.prems in simp_all)
  ultimately show ?case
    by (simp add: js_sort_Cons)
qed

text \<open>Rounding a value that one side bounds by a binary64 value stays on that side.\<close>

lemma fl_le:
  assumes "y \<le> x" "representable x"
  shows "fl y = NInf \<or> (\<exists>v. fl y = Fin v \<and> v \<le> x)"
proof -
  have r: "rnd y \<le> x"
    using rnd_mono [OF assms(1)] assms(2) by (simp add: representable_def)
  have "ilog2 \<bar>rnd y\<bar> < 1024" if pos: "0 < rnd y"
  proof -
    have "ilog2 (rnd y) \<le> ilog2 x"
      using pos r by (rule ilog2_mono)
    moreover have "ilog2 \<bar>x\<bar> < 1024" "\<bar>x\<bar> = x" "\<bar>rnd y\<bar> = rnd y"
      using assms(2) pos r by (simp_all add: representable_def)
    ultimately show ?thesis
      by simp
  qed
  then show ?thesis
    using r by (auto simp: fl_def Let_def)
qed

lemma fl_ge:
  assumes "x \<le> y" "representable x"
  shows "fl y = PInf \<or> (\<exists>v. fl y = Fin v \<and> x \<le> v)"
proof -
  have r: "x \<le> rnd y"
    using rnd_mono [OF assms(1)] assms(2) by (simp add: representable_def)
  have "ilog2 \<bar>rnd y\<bar> < 1024" if neg: "\<not> 0 < rnd y"
  proof (cases "rnd y = 0")
    case True
    then show ?thesis
      by (simp add: ilog2_nonpos)
  next
    case False
    then have "0 < \<bar>rnd y\<bar>" "\<bar>rnd y\<bar> \<le> \<bar>x\<bar>"
      using neg r by simp_all
    then have "ilog2 \<bar>rnd y\<bar> \<le> ilog2 \<bar>x\<bar>"
      by (rule ilog2_mono)
    then show ?thesis
      using assms(2) by (simp add: representable_def)
  qed
  then show ?thesis
    using r by (auto simp: fl_def Let_def)
qed

lemma fl_nonneg:
  assumes "0 \<le> x"
  shows "fl x = PInf \<or> (\<exists>v. fl x = Fin v \<and> 0 \<le> v)"
proof -
  have "representable 0"
    by (simp add: representable_def ilog2_nonpos)
  then show ?thesis
    using fl_ge [OF assms] by simp
qed


section \<open>Properties of the power analysis\<close>

subsection \<open>The sweep\<close>

text \<open>Sixty additions of \<open>0.1\<close> to \<open>- 3\<close>, each rounded, arrive above \<open>3\<close>: the loop ends
  with sixty values, the thirty-first is \<open>55 / 2 ^ 55\<close> and not zero, and the last is
  the binary64 value next to \<open>2.9\<close>.\<close>

lemma sweep_value:
  "map_option (\<lambda>xs. (length xs, xs ! 30, last xs)) (sweep (Fin (- 3)) [])
     = Some (60, Fin (55 / 36028797018963968), Fin (3265109729843613 / 1125899906842624))"
  by (simp add: fl_eval sweep.simps)

lemma sweep_result:
  obtains xs where "sweep (Fin (- 3)) [] = Some xs" "length xs = 60"
    "xs ! 30 = Fin (55 / 36028797018963968)"
    "last xs = Fin (3265109729843613 / 1125899906842624)"
  using sweep_value by (cases "sweep (Fin (- 3)) []") auto

lemma mu_powerPoint [simp]: "mu (powerPoint inp m) = m"
  by (simp add: powerPoint_def Let_def)

lemma calculatePower_valid:
  assumes "validate inp = None" "sweep (Fin (- 3)) [] = Some xs"
  shows "calculatePower inp =
    Some (Inr \<lparr>res_alpha = alphaNum inp, res_mu0 = mu0Num inp,
                 res_sigma = sigmaNum inp, res_n = nNum inp,
                 res_effectSize = effectSize inp,
                 res_targetPower = targetPowerNum inp,
                 powerData = map (powerPoint inp)
                    (map (\<lambda>i. jadd (mu0Num inp)
                                (jmul i (jdiv (sigmaNum inp) (jsqrt (nNum inp))))) xs),
                 requiredSampleSize = sampleSize inp\<rparr>)"
  using assms by (simp add: calculatePower_def muAlternatives_def Let_def)

lemma validate_scenario: "validate scenarioInput = None"
  by (simp add: validate_def scenarioInput_def fl_eval)

lemma validate_unit: "validate unitInput = None"
  by (simp add: validate_def unitInput_def fl_eval)

lemma validate_strict: "validate strictInput = None"
  by (simp add: validate_def strictInput_def fl_eval)

text \<open>
  Claim C9 says that the curve has exactly 61 points, from \<open>mu0 - 3\<close> standard errors to
  \<open>mu0 + 3\<close> standard errors in steps of a tenth of a standard error. The code gives
  every input that passes the validation a curve of 60 points: the counter is
  accumulated in binary64, after sixty additions it is above \<open>3\<close>, and the last point
  lies at the counter value next to \<open>2.9\<close>, so the curve stops one step short of
  \<open>mu0 + 3\<close> standard errors.
\<close>

theorem power_curve_sixty_points:
  assumes "validate inp = None"
  shows "\<exists>r. calculatePower inp = Some (Inr r) \<and> length (powerData r) = 60
           \<and> mu (last (powerData r)) =
               jadd (mu0Num inp)
                 (jmul (Fin (3265109729843613 / 1125899906842624))
                    (jdiv (sigmaNum inp) (jsqrt (nNum inp))))"
proof -
  obtain xs where xs: "sweep (Fin (- 3)) [] = Some xs" "length xs = 60"
    "last xs = Fin (3265109729843613 / 1125899906842624)"
    using sweep_result by blast
  then have ne: "xs \<noteq> []"
    by auto
  show ?thesis
    unfolding calculatePower_valid [OF assms xs(1)]
    using xs(2,3) ne by (simp add: last_map)
qed

theorem power_curve_sixty_points_witness:
  "validate unitInput = None
   \<and> (\<exists>r. calculatePower unitInput = Some (Inr r) \<and> length (powerData r) = 60
          \<and> mu (last (powerData r)) = Fin (3265109729843613 / 1125899906842624)
          \<and> js_lt (mu (last (powerData r))) (Fin 3))"
proof -
  obtain r where r: "calculatePower unitInput = Some (Inr r)" "length (powerData r) = 60"
    "mu (last (powerData r)) =
       jadd (mu0Num unitInput)
         (jmul (Fin (3265109729843613 / 1125899906842624))
            (jdiv (sigmaNum unitInput) (jsqrt (nNum unitInput))))"
    using power_curve_sixty_points [OF validate_unit] by blast
  have "mu (last (powerData r)) = Fin (3265109729843613 / 1125899906842624)"
    unfolding r(3) by (simp add: unitInput_def sqrt_eval fl_eval)
  then show ?thesis
    using validate_unit r(1,2) by simp
qed

subsection \<open>The power at the null mean\<close>

lemma jsub_self: "jsub m m = Fin 0 \<or> jsub m m = NaN"
  by (cases m) (simp_all add: jsub_def)

lemma jdiv_zero: "jdiv (Fin 0) s = Fin 0 \<or> jdiv (Fin 0) s = NaN"
  by (cases s) simp_all

text \<open>Whatever the inputs, the point computed for the null mean itself has the power
  \<open>1\<close> (or \<open>NaN\<close>, when the standard error is zero or not a number): the statistic is
  \<open>0\<close>, \<open>1 - (0 - 1.96)\<close> is \<open>2.96\<close>, and the clamp brings it to \<open>1\<close>.\<close>

lemma power_at_null_mean:
  "power (powerPoint inp (mu0Num inp)) = Fin 1 \<or> power (powerPoint inp (mu0Num inp)) = NaN"
proof -
  define z where
    "z = jdiv (jsub (mu0Num inp) (mu0Num inp)) (jdiv (sigmaNum inp) (jsqrt (nNum inp)))"
  have p: "power (powerPoint inp (mu0Num inp)) =
      jmin (jmax (jsub (Fin 1)
                    (if js_lt (jsub (jabs z) (lit (196 / 100))) (Fin 0)
                     then jsub (jabs z) (lit (196 / 100))
                     else jadd (jabs z) (lit (196 / 100)))) (Fin 0)) (Fin 1)"
    unfolding z_def powerPoint_def Let_def by simp
  have "z = Fin 0 \<or> z = NaN"
    unfolding z_def
    using jsub_self [of "mu0Num inp"] jdiv_zero [of "jdiv (sigmaNum inp) (jsqrt (nNum inp))"]
    by (cases "jdiv (sigmaNum inp) (jsqrt (nNum inp))") auto
  then show ?thesis
  proof
    assume "z = Fin 0"
    then show ?thesis
      unfolding p by (simp add: fl_eval)
  next
    assume "z = NaN"
    then have "power (powerPoint inp (mu0Num inp)) = NaN"
      unfolding p by (simp add: jsub_def jmax_def jmin_def)
    then show ?thesis
      by simp
  qed
qed

text \<open>
  Claim C1 says that the power of the generated curve at \<open>mu = mu0\<close> equals \<open>alpha\<close>
  within \<open>0.001\<close>. In the scenario \<open>mu0 = 0\<close>, \<open>sigma = 1\<close>, \<open>n = 30\<close>, \<open>alpha = 0.05\<close> the
  point of the curve nearest to \<open>mu0\<close> (the thirty-first, a hair above \<open>mu0\<close>) has the
  power \<open>1\<close>, the point computed for \<open>mu0\<close> itself has the power \<open>1\<close> as well, and \<open>1\<close> is
  about \<open>0.95\<close> away from \<open>alpha\<close>, which is more than \<open>0.001\<close>.
\<close>

theorem power_at_null_mean_is_one:
  "curvePoint (calculatePower scenarioInput) 30 =
     Some \<lparr>mu = Fin (5652907117647811 / 20282409603651670423947251286016), power = Fin 1\<rparr>
   \<and> power (powerPoint scenarioInput (mu0Num scenarioInput)) = Fin 1
   \<and> jabs (jsub (Fin 1) (alphaNum scenarioInput)) = Fin (4278419646001971 / 4503599627370496)
   \<and> js_gt (jabs (jsub (Fin 1) (alphaNum scenarioInput))) (lit (1 / 1000))"
proof -
  obtain xs where xs: "sweep (Fin (- 3)) [] = Some xs" "length xs = 60"
    "xs ! 30 = Fin (55 / 36028797018963968)"
    using sweep_result by blast
  have "curvePoint (calculatePower scenarioInput) 30 =
     Some (powerPoint scenarioInput
             (jadd (mu0Num scenarioInput)
                (jmul (Fin (55 / 36028797018963968))
                   (jdiv (sigmaNum scenarioInput) (jsqrt (nNum scenarioInput))))))"
    unfolding calculatePower_valid [OF validate_scenario xs(1)]
    using xs(2,3) by (simp add: curvePoint_def)
  also have "\<dots> = Some \<lparr>mu = Fin (5652907117647811 / 20282409603651670423947251286016),
                          power = Fin 1\<rparr>"
    by (simp add: powerPoint_def scenarioInput_def fl_eval sqrt_eval)
  finally have a: "curvePoint (calculatePower scenarioInput) 30 =
     Some \<lparr>mu = Fin (5652907117647811 / 20282409603651670423947251286016),
           power = Fin 1\<rparr>" .
  have b: "power (powerPoint scenarioInput (mu0Num scenarioInput)) = Fin 1"
    by (simp add: powerPoint_def scenarioInput_def fl_eval sqrt_eval)
  have c: "jabs (jsub (Fin 1) (alphaNum scenarioInput))
             = Fin (4278419646001971 / 4503599627370496)"
    by (simp add: scenarioInput_def fl_eval)
  have d: "js_gt (jabs (jsub (Fin 1) (alphaNum scenarioInput))) (lit (1 / 1000))"
    unfolding c by (simp add: fl_eval)
  show ?thesis
    using a b c d by blast
qed

subsection \<open>The required sample size\<close>

text \<open>The sample size is computed from the effect size and \<open>sigma\<close> alone: neither the
  significance level nor the target power enters.\<close>

lemma sampleSize_ignores_level_and_power:
  "sampleSize (inp\<lparr>alphaNum := a, targetPowerNum := t\<rparr>) = sampleSize inp"
  by (simp add: sampleSize_def Let_def split: option.split)

lemma effect_size_zero_rejected:
  assumes "effectSize inp = Some (Fin 0)"
  shows "\<exists>e. calculatePower inp = Some (Inl e)"
  using assms by (simp add: calculatePower_def validate_def)

text \<open>
  Claim C7 says that the required sample size is computed with the quantiles of the
  supplied \<open>alpha\<close>, \<open>beta\<close> and tail type. At level \<open>0.01\<close> and target power \<open>0.95\<close>, for
  an effect size of \<open>1\<close> and \<open>sigma = 1\<close>, the code returns \<open>8\<close>, the same as at level
  \<open>0.05\<close> and target power \<open>0.8\<close>: the quantiles are the constants \<open>1.96\<close> and
  \<open>0.84\<close>.
\<close>

theorem sample_size_fixed_quantiles:
  "map_option (map_sum id requiredSampleSize) (calculatePower strictInput)
     = Some (Inr (Some (Fin 8)))
   \<and> map_option (map_sum id requiredSampleSize)
        (calculatePower
           (strictInput\<lparr>alphaNum := lit (5 / 100), targetPowerNum := lit (8 / 10)\<rparr>))
      = Some (Inr (Some (Fin 8)))"
proof -
  obtain xs where xs: "sweep (Fin (- 3)) [] = Some xs"
    using sweep_result by blast
  have s: "sampleSize strictInput = Some (Fin 8)"
    by (simp add: sampleSize_def strictInput_def fl_eval ceiling_def)
  have v: "validate (strictInput\<lparr>alphaNum := lit (5 / 100), targetPowerNum := lit (8 / 10)\<rparr>)
             = None"
    by (simp add: validate_def strictInput_def fl_eval)
  show ?thesis
    unfolding calculatePower_valid [OF validate_strict xs] calculatePower_valid [OF v xs]
    by (simp add: s sampleSize_ignores_level_and_power)
qed


section \<open>Properties of the goodness-of-fit component\<close>

subsection \<open>The pairs and their entries\<close>

lemma autoTestPairs_types:
  "map (\<lambda>p. (dist_type (fst p), method_type (snd p))) autoTestPairs =
     [(Normal, KolmogorovSmirnov), (Normal, ChiSquare), (Normal, AndersonDarling),
      (Normal, JarqueBera), (Uniform, KolmogorovSmirnov), (Uniform, ChiSquare),
      (Exponential, KolmogorovSmirnov), (Exponential, ChiSquare),
      (Poisson, KolmogorovSmirnov), (Poisson, ChiSquare)]"
  by (simp add: autoTestPairs_def distributionOptions_def testMethodOptions_def)

lemma length_autoTestPairs: "length autoTestPairs = 10"
  using arg_cong [OF autoTestPairs_types, of length] by simp

lemma runPair_pair [simp]:
  "distributionType (runPair lib c d m) = dist_type d"
  "testType (runPair lib c d m) = method_type m"
  by (simp_all add: runPair_def Let_def split: sum.split)

lemma runPair_thrown:
  assumes "pairThrows lib c (d, m)"
  shows "statistic (runPair lib c d m) = NaN" "pValue (runPair lib c d m) = NaN"
    "isReject (runPair lib c d m)"
  using assms by (auto simp: runPair_def pairThrows_def pairResult_def Let_def isl_def)

lemma runPair_returned:
  assumes "pairResult lib c (d, m) = Inr r"
  shows "statistic (runPair lib c d m) = statistic r" "pValue (runPair lib c d m) = pValue r"
    "isReject (runPair lib c d m) = isReject r"
  using assms by (simp_all add: runPair_def pairResult_def Let_def)

lemma testResults_nth:
  assumes "i < length autoTestPairs"
  shows "testResults lib c ! i = runPair lib c (fst (autoTestPairs ! i)) (snd (autoTestPairs ! i))"
  using assms by (simp add: testResults_def case_prod_unfold)

lemma length_testResults [simp]: "length (testResults lib c) = length autoTestPairs"
  by (simp add: testResults_def)

lemma testType_testResults:
  assumes "e \<in> set (testResults lib c)"
  shows "testType e \<noteq> ShapiroWilk"
proof -
  obtain p where p: "p \<in> set autoTestPairs" "e = runPair lib c (fst p) (snd p)"
    using assms by (auto simp: testResults_def)
  have "(dist_type (fst p), method_type (snd p))
          \<in> set (map (\<lambda>p. (dist_type (fst p), method_type (snd p))) autoTestPairs)"
    using p(1) by (simp add: image_iff) blast
  then have "method_type (snd p) \<noteq> ShapiroWilk"
    unfolding autoTestPairs_types by auto
  then show ?thesis
    using p(2) by simp
qed

subsection \<open>Scoring and ranking\<close>

lemma scoreEntry_fields [simp]:
  "pValue (scoreEntry e) = pValue e"
  "statistic (scoreEntry e) = statistic e"
  "isReject (scoreEntry e) = isReject e"
  "testType (scoreEntry e) = testType e"
  "distributionType (scoreEntry e) = distributionType e"
  "AutoTestEntry.truncate (scoreEntry e) = e"
  by (simp_all add: scoreEntry_def Let_def AutoTestEntry.defs GoFTestResult.defs)

lemma combinedScore_scoreEntry:
  "combinedScore (scoreEntry e) =
     jmul (jadd (pValue e) (if js_gt (pValue e) (lit (1 / 10)) then lit (5 / 100) else Fin 0))
       (methodWeight (testType e))"
  by (simp add: scoreEntry_def Let_def AutoTestEntry.defs ScoredEntry.defs)

lemma rankEntry_fields [simp]:
  "pValue (rankEntry p) = pValue (snd p)"
  "statistic (rankEntry p) = statistic (snd p)"
  "isReject (rankEntry p) = isReject (snd p)"
  "testType (rankEntry p) = testType (snd p)"
  "distributionType (rankEntry p) = distributionType (snd p)"
  "combinedScore (rankEntry p) = combinedScore (snd p)"
  "rank (rankEntry p) = fst p + 1"
  "ScoredEntry.truncate (rankEntry p) = snd p"
  by (simp_all add: rankEntry_def ScoredEntry.defs AutoTestEntry.defs GoFTestResult.defs RankedEntry.defs)

subsection \<open>Weights and scores\<close>

lemma methodWeight_values:
  "methodWeight KolmogorovSmirnov = Fin 1"
  "methodWeight ChiSquare = Fin (8106479329266893 / 9007199254740992)"
  "methodWeight AndersonDarling = Fin (2476979795053773 / 2251799813685248)"
  "methodWeight JarqueBera = Fin (3602879701896397 / 4503599627370496)"
  "methodWeight ShapiroWilk = Fin 1"
  by (simp_all add: methodWeight_def methodWeightMap_def js_or_def fl_eval)

lemma methodWeight_spec_eq:
  assumes "t \<noteq> ShapiroWilk"
  shows "methodWeight_spec t = Some (methodWeight t)"
  using assms by (cases t) (simp_all add: methodWeight_values, simp_all add: fl_eval)

lemma methodWeight_pos: "\<exists>w. methodWeight t = Fin w \<and> 0 < w"
proof (cases t)
  case ChiSquare
  then show ?thesis
    by (intro exI [of _ "8106479329266893 / 9007199254740992"]) (simp add: methodWeight_values)
next
  case AndersonDarling
  then show ?thesis
    by (intro exI [of _ "2476979795053773 / 2251799813685248"]) (simp add: methodWeight_values)
next
  case JarqueBera
  then show ?thesis
    by (intro exI [of _ "3602879701896397 / 4503599627370496"]) (simp add: methodWeight_values)
qed (simp_all add: methodWeight_values)

lemma lit_bonus: "lit (5 / 100) = Fin (3602879701896397 / 72057594037927936)"
  by (simp add: fl_eval)

lemma bonus_finite:
  "\<exists>b. (if js_gt p (lit (1 / 10)) then lit (5 / 100) else Fin 0) = Fin b"
proof (cases "js_gt p (lit (1 / 10))")
  case True
  then show ?thesis
    unfolding lit_bonus by (intro exI [of _ "3602879701896397 / 72057594037927936"]) simp
next
  case False
  then show ?thesis
    by (intro exI [of _ 0]) simp
qed

lemma jadd_Fin_not_NaN: "x \<noteq> NaN \<Longrightarrow> jadd x (Fin b) \<noteq> NaN"
  by (cases x) simp_all

lemma jmul_Fin_regular: "x \<noteq> NaN \<Longrightarrow> w \<noteq> 0 \<Longrightarrow> regular (jmul x (Fin w))"
  by (cases x) simp_all

lemma score_regular:
  assumes "pValue e \<noteq> NaN"
  shows "regular (combinedScore (scoreEntry e))"
proof -
  obtain b where b: "(if js_gt (pValue e) (lit (1 / 10)) then lit (5 / 100) else Fin 0) = Fin b"
    using bonus_finite by blast
  obtain w where w: "methodWeight (testType e) = Fin w" "0 < w"
    using methodWeight_pos by blast
  have "jadd (pValue e) (Fin b) \<noteq> NaN"
    using assms by (rule jadd_Fin_not_NaN)
  then have "regular (jmul (jadd (pValue e) (Fin b)) (Fin w))"
    using w(2) by (intro jmul_Fin_regular) simp_all
  then show ?thesis
    unfolding combinedScore_scoreEntry b w(1) .
qed


subsection \<open>The ranked list\<close>

lemma map_snd_enumerate': "map (\<lambda>p. f (snd p)) (enumerate n xs) = map f xs"
  by (induction xs arbitrary: n) simp_all

lemma map_fst_enumerate': "map (\<lambda>p. g (fst p)) (enumerate n xs) = map g [n..<n + length xs]"
  by (induction xs arbitrary: n) (simp_all add: upt_rec)

lemma truncate_sortedResults:
  "map ScoredEntry.truncate (sortedResults rs) =
     js_sort (\<lambda>a b. jsub (combinedScore b) (combinedScore a))
       (map scoreEntry (filter (\<lambda>r. \<not> isNaN (pValue r)) rs))"
  by (simp add: sortedResults_def comp_def map_snd_enumerate' [of "\<lambda>x. x", simplified])

lemma length_sortedResults:
  "length (sortedResults rs) = length (filter (\<lambda>r. \<not> isNaN (pValue r)) rs)"
  by (simp add: sortedResults_def)

lemma rank_sortedResults:
  "map rank (sortedResults rs) = [1..<Suc (length (sortedResults rs))]"
proof -
  have "map rank (sortedResults rs) = map Suc [0..<0 + length (sortedResults rs)]"
    unfolding length_sortedResults
    by (simp add: sortedResults_def comp_def map_fst_enumerate' [of Suc, simplified])
  also have "\<dots> = [1..<Suc (length (sortedResults rs))]"
    by (simp add: map_Suc_upt)
  finally show ?thesis .
qed

lemma autoTestResults_performAutoTest:
  "autoTestResults (performAutoTest lib c) =
     (if autoTestError c = None then sortedResults (testResults lib c) else [])"
  by (simp add: performAutoTest_def Let_def split: option.split list.split)

text \<open>What an entry of the ranked list is: the scored copy of a collected entry whose
  p-value is a number.\<close>

lemma sortedResults_entry:
  assumes "r \<in> set (sortedResults rs)"
  obtains e where "e \<in> set rs" "pValue e \<noteq> NaN" "ScoredEntry.truncate r = scoreEntry e"
proof -
  have "ScoredEntry.truncate r \<in> set (map ScoredEntry.truncate (sortedResults rs))"
    using assms by simp
  then have "ScoredEntry.truncate r \<in> set (map scoreEntry (filter (\<lambda>r. \<not> isNaN (pValue r)) rs))"
    unfolding truncate_sortedResults by simp
  then show ?thesis
    using that by (auto simp: isNaN_def)
qed

lemma truncate_fields:
  "pValue (ScoredEntry.truncate r) = pValue r"
  "isReject (ScoredEntry.truncate r) = isReject r"
  "testType (ScoredEntry.truncate r) = testType r"
  "combinedScore (ScoredEntry.truncate r) = combinedScore r"
  by (simp_all add: ScoredEntry.defs AutoTestEntry.defs GoFTestResult.defs)

lemma results_entry:
  assumes "r \<in> set (autoTestResults (performAutoTest lib c))"
  obtains e where "e \<in> set (testResults lib c)" "pValue e \<noteq> NaN"
    "ScoredEntry.truncate r = scoreEntry e"
proof -
  have "r \<in> set (sortedResults (testResults lib c))"
    using assms by (simp add: autoTestResults_performAutoTest split: if_splits)
  then show ?thesis
    using that by (rule sortedResults_entry)
qed

lemma testResults_entry:
  assumes "e \<in> set (testResults lib c)"
  obtains p where "p \<in> set autoTestPairs" "e = runPair lib c (fst p) (snd p)"
  using assms by (auto simp: testResults_def)

lemma runPair_cases:
  obtains (thrown) "pairThrows lib c (d, m)"
  | (returned) r where "pairResult lib c (d, m) = Inr r"
  by (cases "pairResult lib c (d, m)") (auto simp: pairThrows_def)

subsection \<open>The sample run\<close>

lemma sample_valid: "autoTestError sampleComponent = None"
  by (simp add: autoTestError_def sampleComponent_def fl_eval)

lemma sample_fields:
  "dataset sampleComponent = [Fin 1, Fin 5, Fin 3, Fin 2, Fin 4, Fin 9]"
  "significanceLevel sampleComponent = Fin (3602879701896397 / 36028797018963968)"
  "numBins sampleComponent = Fin 10"
  "distributionInfo sampleComponent = Some \<lparr>info_type = Some Uniform\<rparr>"
  "basicStats sampleComponent = None"
  by (simp_all add: sampleComponent_def fl_eval)

lemma sample_collected:
  "map (\<lambda>e. (distributionType e, testType e, pValue e, isReject e))
     (testResults sampleLib sampleComponent) =
     [(Normal, KolmogorovSmirnov, Fin (1 / 2), False),
      (Normal, ChiSquare, NaN, True),
      (Normal, AndersonDarling, Fin (1 / 2), False),
      (Normal, JarqueBera, Fin (1 / 2), False),
      (Uniform, KolmogorovSmirnov, Fin (3602879701896397 / 72057594037927936), True),
      (Uniform, ChiSquare, NaN, True),
      (Exponential, KolmogorovSmirnov, Fin (3602879701896397 / 72057594037927936), True),
      (Exponential, ChiSquare, NaN, True),
      (Poisson, KolmogorovSmirnov, Fin (3602879701896397 / 72057594037927936), True),
      (Poisson, ChiSquare, NaN, True)]"
  by (simp add: testResults_def autoTestPairs_def distributionOptions_def testMethodOptions_def
      runPair_def sampleLib_def sampleTest_def sample_fields fl_eval)

lemma sample_ranked:
  "map (\<lambda>r. (rank r, distributionType r, testType r, combinedScore r))
     (autoTestResults (performAutoTest sampleLib sampleComponent)) =
     [(1, Normal, AndersonDarling, Fin (5449355549118301 / 9007199254740992)),
      (2, Normal, KolmogorovSmirnov, Fin (2476979795053773 / 4503599627370496)),
      (3, Normal, JarqueBera, Fin (3963167672086037 / 9007199254740992)),
      (4, Uniform, KolmogorovSmirnov, Fin (3602879701896397 / 72057594037927936)),
      (5, Exponential, KolmogorovSmirnov, Fin (3602879701896397 / 72057594037927936)),
      (6, Poisson, KolmogorovSmirnov, Fin (3602879701896397 / 72057594037927936))]"
  by (simp add: autoTestResults_performAutoTest sample_valid sortedResults_def
      testResults_def autoTestPairs_def distributionOptions_def testMethodOptions_def
      runPair_def sampleLib_def sampleTest_def sample_fields js_sort_def
      combinedScore_scoreEntry methodWeight_values fl_eval)

lemma sample_length: "length (autoTestResults (performAutoTest sampleLib sampleComponent)) = 6"
  using arg_cong [OF sample_ranked, of length] by simp

subsection \<open>Failed tests\<close>

text \<open>
  Claim C4: when the test of a pair throws, the orchestrator records for that pair an
  entry with \<open>statistic = NaN\<close>, \<open>pValue = NaN\<close> and \<open>isReject = true\<close>, goes on with the
  remaining pairs, and keeps every entry marked in this way out of the ranked list.
  Whatever the tests do, \<open>testResults\<close> has one entry for each pair of the enumeration,
  in its order; the entry of a pair whose test throws carries the three marks, the
  entry of a pair whose test returns carries the test's statistic, p-value and
  decision; no entry of the ranked list has the p-value \<open>NaN\<close>, and when the checks of
  the input pass the ranked list has as many entries as \<open>testResults\<close> has entries
  with a p-value other than \<open>NaN\<close>.
\<close>

theorem auto_test_failure_recorded:
  "length (testResults lib c) = length autoTestPairs
   \<and> (\<forall>i < length autoTestPairs.
         distributionType (testResults lib c ! i) = dist_type (fst (autoTestPairs ! i))
       \<and> testType (testResults lib c ! i) = method_type (snd (autoTestPairs ! i))
       \<and> (pairThrows lib c (autoTestPairs ! i) \<longrightarrow>
            statistic (testResults lib c ! i) = NaN \<and> pValue (testResults lib c ! i) = NaN
            \<and> isReject (testResults lib c ! i))
       \<and> (\<forall>r. pairResult lib c (autoTestPairs ! i) = Inr r \<longrightarrow>
            statistic (testResults lib c ! i) = statistic r
            \<and> pValue (testResults lib c ! i) = pValue r
            \<and> isReject (testResults lib c ! i) = isReject r))
   \<and> (\<forall>r \<in> set (autoTestResults (performAutoTest lib c)). pValue r \<noteq> NaN)
   \<and> (autoTestError c = None \<longrightarrow>
        length (autoTestResults (performAutoTest lib c))
          = length (filter (\<lambda>e. pValue e \<noteq> NaN) (testResults lib c)))"
proof (intro conjI allI impI ballI)
  show "length (testResults lib c) = length autoTestPairs"
    by simp
next
  fix i
  assume i: "i < length autoTestPairs"
  show "distributionType (testResults lib c ! i) = dist_type (fst (autoTestPairs ! i))"
    and "testType (testResults lib c ! i) = method_type (snd (autoTestPairs ! i))"
    using i by (simp_all add: testResults_nth)
  {
    assume "pairThrows lib c (autoTestPairs ! i)"
    then have t: "pairThrows lib c (fst (autoTestPairs ! i), snd (autoTestPairs ! i))"
      by simp
    show "statistic (testResults lib c ! i) = NaN" "pValue (testResults lib c ! i) = NaN"
      "isReject (testResults lib c ! i)"
      using runPair_thrown [OF t] i by (simp_all add: testResults_nth)
  }
  {
    fix r
    assume "pairResult lib c (autoTestPairs ! i) = Inr r"
    then have t: "pairResult lib c (fst (autoTestPairs ! i), snd (autoTestPairs ! i)) = Inr r"
      by simp
    show "statistic (testResults lib c ! i) = statistic r"
      "pValue (testResults lib c ! i) = pValue r"
      "isReject (testResults lib c ! i) = isReject r"
      using runPair_returned [OF t] i by (simp_all add: testResults_nth)
  }
next
  fix r
  assume "r \<in> set (autoTestResults (performAutoTest lib c))"
  then have "r \<in> set (sortedResults (testResults lib c))"
    by (simp add: autoTestResults_performAutoTest split: if_splits)
  then obtain e where "pValue e \<noteq> NaN" "ScoredEntry.truncate r = scoreEntry e"
    by (rule sortedResults_entry)
  then show "pValue r \<noteq> NaN"
    using truncate_fields(1) [of r] by simp
next
  assume "autoTestError c = None"
  then show "length (autoTestResults (performAutoTest lib c))
          = length (filter (\<lambda>e. pValue e \<noteq> NaN) (testResults lib c))"
    by (simp add: autoTestResults_performAutoTest length_sortedResults isNaN_def)
qed

text \<open>In the sample run the second pair, (normal, chi-square), throws: its entry carries
  the three marks, all ten pairs have their entry, and the ranked list keeps the six
  entries whose test returned.\<close>

theorem auto_test_failure_recorded_witness:
  "pairThrows sampleLib sampleComponent (autoTestPairs ! 1)
   \<and> statistic (testResults sampleLib sampleComponent ! 1) = NaN
   \<and> pValue (testResults sampleLib sampleComponent ! 1) = NaN
   \<and> isReject (testResults sampleLib sampleComponent ! 1)
   \<and> length (testResults sampleLib sampleComponent) = 10
   \<and> length (autoTestResults (performAutoTest sampleLib sampleComponent)) = 6
   \<and> list_all (\<lambda>r. pValue r \<noteq> NaN)
        (autoTestResults (performAutoTest sampleLib sampleComponent))"
proof -
  have t: "pairThrows sampleLib sampleComponent (autoTestPairs ! 1)"
    by (simp add: pairThrows_def pairResult_def autoTestPairs_def distributionOptions_def
        testMethodOptions_def sampleLib_def sampleTest_def)
  have i: "1 < length autoTestPairs"
    by (simp add: length_autoTestPairs)
  note main = auto_test_failure_recorded [of sampleLib sampleComponent]
  have "statistic (testResults sampleLib sampleComponent ! 1) = NaN"
    "pValue (testResults sampleLib sampleComponent ! 1) = NaN"
    "isReject (testResults sampleLib sampleComponent ! 1)"
    using main t i by blast+
  moreover have "length (testResults sampleLib sampleComponent) = 10"
    using main length_autoTestPairs by simp
  moreover have "list_all (\<lambda>r. pValue r \<noteq> NaN)
        (autoTestResults (performAutoTest sampleLib sampleComponent))"
    using main by (simp add: list_all_iff)
  ultimately show ?thesis
    using t sample_length by blast
qed

subsection \<open>The decision and the p-value\<close>

text \<open>A result that the engine of the specification returns decides by the p-value it
  reports.\<close>

lemma executeGoFTest_spec_returned:
  assumes "executeGoFTest_spec core ds t d a ps nb = Inr r"
  shows "isReject r = js_lt (pValue r) a"
  using assms by (auto simp: executeGoFTest_spec_def Let_def split: if_splits)

lemma pairResult_withEngine:
  "pairResult (withEngine lib core) c p =
     executeGoFTest_spec core (dataset c) (method_type (snd p)) (dist_type (fst p))
       (significanceLevel c) (paramsToUse (withEngine lib core) c (dist_type (fst p)))
       (numBins c)"
  by (simp add: pairResult_def withEngine_def)

lemma withEngine_estimators [simp]:
  "calculateMean (withEngine lib core) = calculateMean lib"
  "calculateStd (withEngine lib core) = calculateStd lib"
  "calculateVariance (withEngine lib core) = calculateVariance lib"
  "executeGoFTest (withEngine lib core) = executeGoFTest_spec core"
  by (simp_all add: withEngine_def)

text \<open>The sample run with the engine of the specification: the engine refuses the
  Kolmogorov-Smirnov test of the Poisson distribution, the ninth pair, and the other
  nine pairs have their result.\<close>

lemma engine_collected:
  "map (\<lambda>e. (distributionType e, testType e, pValue e, isReject e))
     (testResults (withEngine sampleLib sampleCore) sampleComponent) =
     [(Normal, KolmogorovSmirnov, Fin (1 / 2), False),
      (Normal, ChiSquare, Fin (1 / 2), False),
      (Normal, AndersonDarling, Fin (1 / 2), False),
      (Normal, JarqueBera, Fin (1 / 2), False),
      (Uniform, KolmogorovSmirnov, Fin (3602879701896397 / 72057594037927936), True),
      (Uniform, ChiSquare, Fin (3602879701896397 / 72057594037927936), True),
      (Exponential, KolmogorovSmirnov, Fin (3602879701896397 / 72057594037927936), True),
      (Exponential, ChiSquare, Fin (3602879701896397 / 72057594037927936), True),
      (Poisson, KolmogorovSmirnov, NaN, True),
      (Poisson, ChiSquare, Fin (3602879701896397 / 72057594037927936), True)]"
  by (simp add: testResults_def autoTestPairs_def distributionOptions_def testMethodOptions_def
      runPair_def executeGoFTest_spec_def sampleCore_def sample_fields fl_eval)

lemma engine_throws:
  "map (pairThrows (withEngine sampleLib sampleCore) sampleComponent) autoTestPairs =
     [False, False, False, False, False, False, False, False, True, False]"
  by (simp add: pairThrows_def pairResult_withEngine autoTestPairs_def distributionOptions_def
      testMethodOptions_def executeGoFTest_spec_def sample_fields fl_eval)

lemma engine_ranked:
  "map (\<lambda>r. (rank r, distributionType r, testType r, pValue r, isReject r))
     (autoTestResults (performAutoTest (withEngine sampleLib sampleCore) sampleComponent)) =
     [(1, Normal, AndersonDarling, Fin (1 / 2), False),
      (2, Normal, KolmogorovSmirnov, Fin (1 / 2), False),
      (3, Normal, ChiSquare, Fin (1 / 2), False),
      (4, Normal, JarqueBera, Fin (1 / 2), False),
      (5, Uniform, KolmogorovSmirnov, Fin (3602879701896397 / 72057594037927936), True),
      (6, Exponential, KolmogorovSmirnov, Fin (3602879701896397 / 72057594037927936), True),
      (7, Uniform, ChiSquare, Fin (3602879701896397 / 72057594037927936), True),
      (8, Exponential, ChiSquare, Fin (3602879701896397 / 72057594037927936), True),
      (9, Poisson, ChiSquare, Fin (3602879701896397 / 72057594037927936), True)]"
  by (simp add: autoTestResults_performAutoTest sample_valid sortedResults_def
      testResults_def autoTestPairs_def distributionOptions_def testMethodOptions_def
      runPair_def executeGoFTest_spec_def sampleCore_def sample_fields js_sort_def
      combinedScore_scoreEntry methodWeight_values fl_eval)

text \<open>
  Claim C2, as amended: every result that the engine returns has
  \<open>isReject = (pValue < alpha)\<close>, and so has every entry that the automatic test collects
  from a test that returned; the entry recorded for a pair whose test threw has
  \<open>statistic = NaN\<close>, \<open>pValue = NaN\<close> and \<open>isReject = true\<close>; these entries are left out of
  the ranked list, every entry of which has \<open>isReject = (pValue < alpha)\<close>. The engine
  is that of the specification, with any numeric core behind it, and the component may
  be in any state.
\<close>

theorem reject_consistent_unless_failed:
  "(\<forall>r. executeGoFTest_spec core ds t d a ps nb = Inr r \<longrightarrow> isReject r = js_lt (pValue r) a)
   \<and> (\<forall>i < length autoTestPairs.
         (pairThrows (withEngine lib core) c (autoTestPairs ! i) \<longrightarrow>
            statistic (testResults (withEngine lib core) c ! i) = NaN
            \<and> pValue (testResults (withEngine lib core) c ! i) = NaN
            \<and> isReject (testResults (withEngine lib core) c ! i))
       \<and> (\<not> pairThrows (withEngine lib core) c (autoTestPairs ! i) \<longrightarrow>
            isReject (testResults (withEngine lib core) c ! i)
              = js_lt (pValue (testResults (withEngine lib core) c ! i)) (significanceLevel c)))
   \<and> (\<forall>r \<in> set (autoTestResults (performAutoTest (withEngine lib core) c)).
         isReject r = js_lt (pValue r) (significanceLevel c))"
proof -
  let ?L = "withEngine lib core"
  have consistent: "isReject r = js_lt (pValue r) (significanceLevel c)"
    if r: "pairResult ?L c p = Inr r" for p r
    using r unfolding pairResult_withEngine by (rule executeGoFTest_spec_returned)
  have collected: "isReject (runPair ?L c x m) = js_lt (pValue (runPair ?L c x m)) (significanceLevel c)
            \<or> (pValue (runPair ?L c x m) = NaN \<and> statistic (runPair ?L c x m) = NaN
                \<and> isReject (runPair ?L c x m) \<and> pairThrows ?L c (x, m))" for x m
  proof (cases rule: runPair_cases [of ?L c x m])
    case thrown
    then show ?thesis
      using runPair_thrown [OF thrown] by simp
  next
    case (returned r)
    then show ?thesis
      using runPair_returned [OF returned] consistent [OF returned] by simp
  qed
  have a: "\<forall>r. executeGoFTest_spec core ds t d a ps nb = Inr r \<longrightarrow> isReject r = js_lt (pValue r) a"
    by (simp add: executeGoFTest_spec_returned)
  have b: "(pairThrows ?L c (autoTestPairs ! i) \<longrightarrow>
            statistic (testResults ?L c ! i) = NaN \<and> pValue (testResults ?L c ! i) = NaN
            \<and> isReject (testResults ?L c ! i))
       \<and> (\<not> pairThrows ?L c (autoTestPairs ! i) \<longrightarrow>
            isReject (testResults ?L c ! i)
              = js_lt (pValue (testResults ?L c ! i)) (significanceLevel c))"
    if i: "i < length autoTestPairs" for i
  proof (intro conjI impI)
    assume "pairThrows ?L c (autoTestPairs ! i)"
    then have t: "pairThrows ?L c (fst (autoTestPairs ! i), snd (autoTestPairs ! i))"
      by simp
    show "statistic (testResults ?L c ! i) = NaN" "pValue (testResults ?L c ! i) = NaN"
      "isReject (testResults ?L c ! i)"
      using runPair_thrown [OF t] i by (simp_all add: testResults_nth)
  next
    assume "\<not> pairThrows ?L c (autoTestPairs ! i)"
    then have "\<not> pairThrows ?L c (fst (autoTestPairs ! i), snd (autoTestPairs ! i))"
      by simp
    then show "isReject (testResults ?L c ! i)
              = js_lt (pValue (testResults ?L c ! i)) (significanceLevel c)"
      using collected [of "fst (autoTestPairs ! i)" "snd (autoTestPairs ! i)"] i
      by (simp add: testResults_nth)
  qed
  have ranked: "isReject r = js_lt (pValue r) (significanceLevel c)"
    if r_in: "r \<in> set (autoTestResults (performAutoTest ?L c))" for r
  proof -
    obtain e where e: "e \<in> set (testResults ?L c)" "pValue e \<noteq> NaN"
      "ScoredEntry.truncate r = scoreEntry e"
      using r_in by (rule results_entry)
    obtain p where p: "e = runPair ?L c (fst p) (snd p)"
      using e(1) by (rule testResults_entry)
    have "pValue r = pValue e" "isReject r = isReject e"
      using truncate_fields(1,2) [of r] e(3) by simp_all
    then show ?thesis
      using collected [of "fst p" "snd p"] e(2) p by auto
  qed
  show ?thesis
    using a b ranked by blast
qed

text \<open>In the sample run the first pair returns and its entry does not reject at the
  p-value \<open>0.5\<close>; the ninth pair is refused and its entry carries the marks; the ranked
  list has the nine other entries, each with \<open>isReject = (pValue < alpha)\<close>, five of them
  rejecting.\<close>

theorem reject_consistent_unless_failed_witness:
  "executeGoFTest_spec sampleCore (dataset sampleComponent) KolmogorovSmirnov Normal
       (significanceLevel sampleComponent) Map.empty (numBins sampleComponent)
     = Inr \<lparr>statistic = Fin 1, pValue = Fin (1 / 2), isReject = False,
             criticalValue = None, degreesOfFreedom = None\<rparr>
   \<and> \<not> pairThrows (withEngine sampleLib sampleCore) sampleComponent (autoTestPairs ! 0)
   \<and> isReject (testResults (withEngine sampleLib sampleCore) sampleComponent ! 0)
       = js_lt (pValue (testResults (withEngine sampleLib sampleCore) sampleComponent ! 0))
           (significanceLevel sampleComponent)
   \<and> pairThrows (withEngine sampleLib sampleCore) sampleComponent (autoTestPairs ! 8)
   \<and> pValue (testResults (withEngine sampleLib sampleCore) sampleComponent ! 8) = NaN
   \<and> isReject (testResults (withEngine sampleLib sampleCore) sampleComponent ! 8)
   \<and> length (autoTestResults (performAutoTest (withEngine sampleLib sampleCore) sampleComponent))
       = 9
   \<and> list_all (\<lambda>r. isReject r = js_lt (pValue r) (significanceLevel sampleComponent))
       (autoTestResults (performAutoTest (withEngine sampleLib sampleCore) sampleComponent))
   \<and> map isReject
       (autoTestResults (performAutoTest (withEngine sampleLib sampleCore) sampleComponent))
       = [False, False, False, False, True, True, True, True, True]"
proof -
  let ?L = "withEngine sampleLib sampleCore"
  let ?R = "autoTestResults (performAutoTest ?L sampleComponent)"
  note main = reject_consistent_unless_failed [of sampleCore _ _ _ _ _ _ sampleLib sampleComponent]
  have e: "executeGoFTest_spec sampleCore (dataset sampleComponent) KolmogorovSmirnov Normal
       (significanceLevel sampleComponent) Map.empty (numBins sampleComponent)
     = Inr \<lparr>statistic = Fin 1, pValue = Fin (1 / 2), isReject = False,
             criticalValue = None, degreesOfFreedom = None\<rparr>"
    by (simp add: executeGoFTest_spec_def sampleCore_def sample_fields fl_eval)
  have i: "0 < length autoTestPairs" "8 < length autoTestPairs"
    by (simp_all add: length_autoTestPairs)
  have t: "\<not> pairThrows ?L sampleComponent (autoTestPairs ! 0)"
    "pairThrows ?L sampleComponent (autoTestPairs ! 8)"
    using arg_cong [OF engine_throws, of "\<lambda>xs. xs ! 0"]
      arg_cong [OF engine_throws, of "\<lambda>xs. xs ! 8"] i
    by simp_all
  have first: "isReject (testResults ?L sampleComponent ! 0)
       = js_lt (pValue (testResults ?L sampleComponent ! 0)) (significanceLevel sampleComponent)"
    using main i(1) t(1) by blast
  have ninth: "pValue (testResults ?L sampleComponent ! 8) = NaN"
    "isReject (testResults ?L sampleComponent ! 8)"
    using main i(2) t(2) by blast+
  have all: "list_all (\<lambda>r. isReject r = js_lt (pValue r) (significanceLevel sampleComponent)) ?R"
    using main by (simp add: list_all_iff)
  have len: "length ?R = 9"
    using arg_cong [OF engine_ranked, of length] by simp
  have rej: "map isReject ?R = [False, False, False, False, True, True, True, True, True]"
    using arg_cong [OF engine_ranked, of "map (\<lambda>t. snd (snd (snd (snd t))))"]
    by (simp add: comp_def)
  show ?thesis
    using e t first ninth len all rej by simp
qed

text \<open>Claim C2 as stated fails on the collected list: in the sample run the engine
  refuses the Kolmogorov-Smirnov test of the Poisson distribution, and the entry
  recorded for that pair has \<open>isReject = true\<close> while its p-value is \<open>NaN\<close>, which is not
  below the level.\<close>

theorem reject_without_pvalue_counterexample:
  "isReject (testResults (withEngine sampleLib sampleCore) sampleComponent ! 8)
   \<and> pValue (testResults (withEngine sampleLib sampleCore) sampleComponent ! 8) = NaN
   \<and> \<not> js_lt (pValue (testResults (withEngine sampleLib sampleCore) sampleComponent ! 8))
          (significanceLevel sampleComponent)"
proof -
  have "map (\<lambda>e. (distributionType e, testType e, pValue e, isReject e))
     (testResults (withEngine sampleLib sampleCore) sampleComponent) ! 8
       = (Poisson, KolmogorovSmirnov, NaN, True)"
    unfolding engine_collected by simp
  then have "pValue (testResults (withEngine sampleLib sampleCore) sampleComponent ! 8) = NaN"
    "isReject (testResults (withEngine sampleLib sampleCore) sampleComponent ! 8)"
    by (simp_all add: length_autoTestPairs)
  then show ?thesis
    by simp
qed

subsection \<open>Scores and order\<close>

lemma scored_regular:
  assumes "x \<in> set (map scoreEntry (filter (\<lambda>r. \<not> isNaN (pValue r)) rs))"
  shows "regular (combinedScore x)"
  using assms score_regular by (auto simp: isNaN_def)

lemma sorted_scored:
  "sorted_wrt (\<lambda>a b. js_ge (combinedScore a) (combinedScore b))
     (js_sort (\<lambda>a b. jsub (combinedScore b) (combinedScore a))
        (map scoreEntry (filter (\<lambda>r. \<not> isNaN (pValue r)) rs)))"
proof (rule sorted_js_sort)
  let ?xs = "map scoreEntry (filter (\<lambda>r. \<not> isNaN (pValue r)) rs)"
  show "\<forall>x \<in> set ?xs. \<forall>y \<in> set ?xs.
          js_gt (jsub (combinedScore y) (combinedScore x)) (Fin 0)
            \<longleftrightarrow> \<not> js_ge (combinedScore x) (combinedScore y)"
  proof (intro ballI)
    fix x y
    assume "x \<in> set ?xs" "y \<in> set ?xs"
    then have r: "regular (combinedScore x)" "regular (combinedScore y)"
      using scored_regular by blast+
    then show "js_gt (jsub (combinedScore y) (combinedScore x)) (Fin 0)
            \<longleftrightarrow> \<not> js_ge (combinedScore x) (combinedScore y)"
      using jsub_pos_iff [OF r(2) r(1)] js_lt_iff_not_ge regular_not_NaN by simp
  qed
  show "\<forall>x \<in> set ?xs. \<forall>y \<in> set ?xs.
          js_ge (combinedScore x) (combinedScore y) \<or> js_ge (combinedScore y) (combinedScore x)"
    using scored_regular js_ge_total regular_not_NaN by blast
  show "\<forall>x \<in> set ?xs. \<forall>y \<in> set ?xs. \<forall>z \<in> set ?xs.
          js_ge (combinedScore x) (combinedScore y) \<longrightarrow>
          js_ge (combinedScore y) (combinedScore z) \<longrightarrow>
          js_ge (combinedScore x) (combinedScore z)"
    using js_ge_trans by blast
qed

lemma sorted_wrt_truncate:
  "sorted_wrt (\<lambda>a b. js_ge (combinedScore a) (combinedScore b)) rs
     \<longleftrightarrow> sorted_wrt (\<lambda>a b. js_ge (combinedScore a) (combinedScore b))
           (map ScoredEntry.truncate rs)"
  by (simp add: sorted_wrt_map truncate_fields)

lemma stable_scored:
  "filter (\<lambda>r. combinedScore r = s)
     (js_sort (\<lambda>a b. jsub (combinedScore b) (combinedScore a))
        (map scoreEntry (filter (\<lambda>r. \<not> isNaN (pValue r)) rs)))
   = filter (\<lambda>r. combinedScore r = s) (map scoreEntry (filter (\<lambda>r. \<not> isNaN (pValue r)) rs))"
proof (rule filter_js_sort)
  fix x y
  let ?xs = "map scoreEntry (filter (\<lambda>r. \<not> isNaN (pValue r)) rs)"
  assume "x \<in> set ?xs" "y \<in> set ?xs"
    and pos: "js_gt (jsub (combinedScore y) (combinedScore x)) (Fin 0)"
  then have r: "regular (combinedScore x)" "regular (combinedScore y)"
    using scored_regular by blast+
  have "js_lt (combinedScore x) (combinedScore y)"
    using jsub_pos_iff [OF r(2) r(1)] pos by simp
  then have "combinedScore x \<noteq> combinedScore y"
    by (rule js_lt_neq)
  then show "\<not> (combinedScore x = s \<and> combinedScore y = s)"
    by auto
qed

text \<open>
  Claim C3: every result collected with a p-value other than \<open>NaN\<close> gets the combined
  score \<open>(pValue + bonus) * methodWeight\<close>, where the bonus is \<open>0.05\<close> if \<open>pValue > 0.1\<close>
  and \<open>0\<close> otherwise and the weight is \<open>1.0\<close>, \<open>0.9\<close>, \<open>1.1\<close>, \<open>0.8\<close> for
  Kolmogorov-Smirnov, chi-square, Anderson-Darling and Jarque-Bera, and the returned
  list is sorted by descending score. The arithmetic is that of the program (binary64).
  Every entry of the returned list has a p-value other than \<open>NaN\<close>, a test type among
  the four and the score of the formula with the weights of the specification; the
  list is sorted by descending score; and when the checks of the input pass, its
  entries without score and rank are, as a multiset, the collected entries whose
  p-value is not \<open>NaN\<close>.
\<close>

theorem combined_score_and_order:
  "(\<forall>r \<in> set (autoTestResults (performAutoTest lib c)).
       pValue r \<noteq> NaN
     \<and> Some (combinedScore r) =
         map_option
           (jmul (jadd (pValue r)
                    (if js_gt (pValue r) (lit (1 / 10)) then lit (5 / 100) else Fin 0)))
           (methodWeight_spec (testType r)))
   \<and> sorted_wrt (\<lambda>a b. js_ge (combinedScore a) (combinedScore b))
        (autoTestResults (performAutoTest lib c))
   \<and> (autoTestError c = None \<longrightarrow>
        mset (map AutoTestEntry.truncate (autoTestResults (performAutoTest lib c)))
          = mset (filter (\<lambda>e. pValue e \<noteq> NaN) (testResults lib c)))"
proof (intro conjI ballI impI)
  fix r
  assume r_in: "r \<in> set (autoTestResults (performAutoTest lib c))"
  obtain e where e: "e \<in> set (testResults lib c)" "pValue e \<noteq> NaN"
    "ScoredEntry.truncate r = scoreEntry e"
    using r_in by (rule results_entry)
  have f: "pValue r = pValue e" "testType r = testType e"
    "combinedScore r = combinedScore (scoreEntry e)"
    using truncate_fields [of r] e(3) by simp_all
  show "pValue r \<noteq> NaN"
    using f(1) e(2) by simp
  have "methodWeight_spec (testType e) = Some (methodWeight (testType e))"
    using testType_testResults [OF e(1)] by (rule methodWeight_spec_eq)
  then show "Some (combinedScore r) =
         map_option
           (jmul (jadd (pValue r)
                    (if js_gt (pValue r) (lit (1 / 10)) then lit (5 / 100) else Fin 0)))
           (methodWeight_spec (testType r))"
    unfolding f combinedScore_scoreEntry by simp
next
  show "sorted_wrt (\<lambda>a b. js_ge (combinedScore a) (combinedScore b))
        (autoTestResults (performAutoTest lib c))"
  proof (cases "autoTestError c = None")
    case True
    have "sorted_wrt (\<lambda>a b. js_ge (combinedScore a) (combinedScore b))
            (map ScoredEntry.truncate (sortedResults (testResults lib c)))"
      unfolding truncate_sortedResults by (rule sorted_scored)
    then have "sorted_wrt (\<lambda>a b. js_ge (combinedScore a) (combinedScore b))
            (sortedResults (testResults lib c))"
      by (rule iffD2 [OF sorted_wrt_truncate])
    then show ?thesis
      using True by (simp add: autoTestResults_performAutoTest)
  next
    case False
    then show ?thesis
      by (auto simp: autoTestResults_performAutoTest)
  qed
next
  assume "autoTestError c = None"
  then have "map AutoTestEntry.truncate (autoTestResults (performAutoTest lib c))
      = map AutoTestEntry.truncate (map ScoredEntry.truncate (sortedResults (testResults lib c)))"
    by (simp add: autoTestResults_performAutoTest ScoredEntry.defs AutoTestEntry.defs
        GoFTestResult.defs)
  also have "mset \<dots> = mset (filter (\<lambda>e. pValue e \<noteq> NaN) (testResults lib c))"
    unfolding truncate_sortedResults by (simp add: multiset.map_comp comp_def isNaN_def)
  finally show "mset (map AutoTestEntry.truncate (autoTestResults (performAutoTest lib c)))
          = mset (filter (\<lambda>e. pValue e \<noteq> NaN) (testResults lib c))" .
qed

text \<open>The sample run: three tests of the normal distribution with p-value \<open>0.5\<close> and the
  bonus, weighted \<open>1.1\<close>, \<open>1.0\<close> and \<open>0.8\<close>, then three Kolmogorov-Smirnov tests with
  p-value \<open>0.05\<close>.\<close>

theorem combined_score_and_order_witness:
  "sorted_wrt (\<lambda>a b. js_ge (combinedScore a) (combinedScore b))
     (autoTestResults (performAutoTest sampleLib sampleComponent))
   \<and> list_all (\<lambda>r. Some (combinedScore r) =
           map_option
             (jmul (jadd (pValue r)
                      (if js_gt (pValue r) (lit (1 / 10)) then lit (5 / 100) else Fin 0)))
             (methodWeight_spec (testType r)))
        (autoTestResults (performAutoTest sampleLib sampleComponent))
   \<and> map (\<lambda>r. (rank r, distributionType r, testType r, combinedScore r))
        (autoTestResults (performAutoTest sampleLib sampleComponent)) =
       [(1, Normal, AndersonDarling, Fin (5449355549118301 / 9007199254740992)),
        (2, Normal, KolmogorovSmirnov, Fin (2476979795053773 / 4503599627370496)),
        (3, Normal, JarqueBera, Fin (3963167672086037 / 9007199254740992)),
        (4, Uniform, KolmogorovSmirnov, Fin (3602879701896397 / 72057594037927936)),
        (5, Exponential, KolmogorovSmirnov, Fin (3602879701896397 / 72057594037927936)),
        (6, Poisson, KolmogorovSmirnov, Fin (3602879701896397 / 72057594037927936))]"
  using combined_score_and_order [of sampleLib sampleComponent] sample_ranked
  by (simp add: list_all_iff)

subsection \<open>Ranks and ties\<close>

text \<open>
  Claim C5: in a ranked list of \<open>k\<close> entries the ranks are \<open>1, \<dots>, k\<close> in the order of the
  list, and entries with equal combined score keep the order in which their pairs
  were enumerated. The second part is the stability of the sort: for every score
  \<open>s\<close>, the entries of the ranked list with the score \<open>s\<close> are, in the same order, the
  scored entries with the score \<open>s\<close> of \<open>testResults\<close>, which lists the pairs in the
  order of the enumeration.
\<close>

theorem ranks_contiguous_and_stable:
  "map rank (autoTestResults (performAutoTest lib c))
     = [1..<Suc (length (autoTestResults (performAutoTest lib c)))]
   \<and> (autoTestError c = None \<longrightarrow>
        (\<forall>s. map ScoredEntry.truncate
               (filter (\<lambda>r. combinedScore r = s) (autoTestResults (performAutoTest lib c)))
             = filter (\<lambda>r. combinedScore r = s)
                 (map scoreEntry (filter (\<lambda>e. pValue e \<noteq> NaN) (testResults lib c)))))"
proof (intro conjI impI allI)
  show "map rank (autoTestResults (performAutoTest lib c))
     = [1..<Suc (length (autoTestResults (performAutoTest lib c)))]"
    by (cases "autoTestError c = None")
      (auto simp: autoTestResults_performAutoTest rank_sortedResults)
next
  fix s
  assume v: "autoTestError c = None"
  have "map ScoredEntry.truncate
          (filter (\<lambda>r. combinedScore r = s) (sortedResults (testResults lib c)))
      = filter (\<lambda>r. combinedScore r = s)
          (map ScoredEntry.truncate (sortedResults (testResults lib c)))"
    by (simp add: filter_map comp_def truncate_fields)
  also have "\<dots> = filter (\<lambda>r. combinedScore r = s)
                 (map scoreEntry (filter (\<lambda>e. \<not> isNaN (pValue e)) (testResults lib c)))"
    unfolding truncate_sortedResults by (rule stable_scored)
  finally show "map ScoredEntry.truncate
               (filter (\<lambda>r. combinedScore r = s) (autoTestResults (performAutoTest lib c)))
             = filter (\<lambda>r. combinedScore r = s)
                 (map scoreEntry (filter (\<lambda>e. pValue e \<noteq> NaN) (testResults lib c)))"
    using v by (simp add: autoTestResults_performAutoTest isNaN_def)
qed

text \<open>In the sample run the ranks are one to six, and the three entries that tie at the
  score of \<open>0.05\<close> stand in the order uniform, exponential, poisson of the enumeration.\<close>

theorem ranks_contiguous_and_stable_witness:
  "map rank (autoTestResults (performAutoTest sampleLib sampleComponent)) = [1, 2, 3, 4, 5, 6]
   \<and> map distributionType
        (filter (\<lambda>r. combinedScore r = Fin (3602879701896397 / 72057594037927936))
           (autoTestResults (performAutoTest sampleLib sampleComponent)))
      = [Uniform, Exponential, Poisson]"
proof -
  let ?R = "autoTestResults (performAutoTest sampleLib sampleComponent)"
  let ?s = "Fin (3602879701896397 / 72057594037927936)"
  have "map rank ?R = [1..<Suc (length ?R)]"
    using ranks_contiguous_and_stable [of sampleLib sampleComponent] by blast
  then have a: "map rank ?R = [1, 2, 3, 4, 5, 6]"
    unfolding sample_length by (simp add: upt_rec)
  have "map distributionType (filter (\<lambda>r. combinedScore r = ?s) ?R)
      = map (\<lambda>t. fst (snd t))
          (filter (\<lambda>t. snd (snd (snd t)) = ?s)
             (map (\<lambda>r. (rank r, distributionType r, testType r, combinedScore r)) ?R))"
    by (simp add: filter_map comp_def)
  also have "\<dots> = [Uniform, Exponential, Poisson]"
    unfolding sample_ranked by simp
  finally show ?thesis
    using a by simp
qed

subsection \<open>The robust estimate of the uniform parameters\<close>

lemma three_iqr:
  assumes "x1 \<le> x3"
  shows "jmul (Fin 3) (jsub (Fin x3) (Fin x1)) = PInf
         \<or> (\<exists>w. jmul (Fin 3) (jsub (Fin x3) (Fin x1)) = Fin w \<and> 0 \<le> w)"
proof -
  have "fl (x3 - x1) = PInf \<or> (\<exists>v. fl (x3 - x1) = Fin v \<and> 0 \<le> v)"
    using assms by (intro fl_nonneg) simp
  then show ?thesis
  proof
    assume "fl (x3 - x1) = PInf"
    then show ?thesis
      by (simp add: jsub_def)
  next
    assume "\<exists>v. fl (x3 - x1) = Fin v \<and> 0 \<le> v"
    then obtain v where v: "fl (x3 - x1) = Fin v" "0 \<le> v"
      by blast
    have "fl (3 * v) = PInf \<or> (\<exists>w. fl (3 * v) = Fin w \<and> 0 \<le> w)"
      using v(2) by (intro fl_nonneg) simp
    then show ?thesis
      using v(1) by (simp add: jsub_def)
  qed
qed

lemma robust_lower:
  assumes "representable x1" "s0 \<le> x1"
    and t: "t = PInf \<or> (\<exists>w. t = Fin w \<and> 0 \<le> w)"
  shows "\<exists>a. jmax (Fin s0) (jsub (Fin x1) t) = Fin a \<and> s0 \<le> a \<and> a \<le> x1"
proof -
  have "jsub (Fin x1) t = NInf \<or> (\<exists>v. jsub (Fin x1) t = Fin v \<and> v \<le> x1)"
    using t
  proof
    assume "t = PInf"
    then show ?thesis
      by (simp add: jsub_def)
  next
    assume "\<exists>w. t = Fin w \<and> 0 \<le> w"
    then obtain w where w: "t = Fin w" "0 \<le> w"
      by blast
    have "fl (x1 - w) = NInf \<or> (\<exists>v. fl (x1 - w) = Fin v \<and> v \<le> x1)"
      using w(2) assms(1) by (intro fl_le) simp_all
    then show ?thesis
      using w(1) by (simp add: jsub_def)
  qed
  then show ?thesis
  proof
    assume "jsub (Fin x1) t = NInf"
    then show ?thesis
      using assms(2) by (simp add: jmax_def)
  next
    assume "\<exists>v. jsub (Fin x1) t = Fin v \<and> v \<le> x1"
    then obtain v where v: "jsub (Fin x1) t = Fin v" "v \<le> x1"
      by blast
    show ?thesis
      using assms(2) v(2) by (cases "s0 < v") (simp_all add: v(1) jmax_def)
  qed
qed

lemma robust_upper:
  assumes "representable x3" "x3 \<le> sl"
    and t: "t = PInf \<or> (\<exists>w. t = Fin w \<and> 0 \<le> w)"
  shows "\<exists>b. jmin (Fin sl) (jadd (Fin x3) t) = Fin b \<and> x3 \<le> b \<and> b \<le> sl"
proof -
  have "jadd (Fin x3) t = PInf \<or> (\<exists>v. jadd (Fin x3) t = Fin v \<and> x3 \<le> v)"
    using t
  proof
    assume "t = PInf"
    then show ?thesis
      by simp
  next
    assume "\<exists>w. t = Fin w \<and> 0 \<le> w"
    then obtain w where w: "t = Fin w" "0 \<le> w"
      by blast
    have "fl (x3 + w) = PInf \<or> (\<exists>v. fl (x3 + w) = Fin v \<and> x3 \<le> v)"
      using w(2) assms(1) by (intro fl_ge) simp_all
    then show ?thesis
      using w(1) by simp
  qed
  then show ?thesis
  proof
    assume "jadd (Fin x3) t = PInf"
    then show ?thesis
      using assms(2) by (simp add: jmin_def)
  next
    assume "\<exists>v. jadd (Fin x3) t = Fin v \<and> x3 \<le> v"
    then obtain v where v: "jadd (Fin x3) t = Fin v" "x3 \<le> v"
      by blast
    show ?thesis
      using assms(2) v(2) by (cases "v < sl") (simp_all add: v(1) jmin_def)
  qed
qed

lemma lit_quarter: "lit (25 / 100) = Fin (1 / 4)"
  by (simp add: fl_eval)

lemma lit_three_quarters: "lit (75 / 100) = Fin (3 / 4)"
  by (simp add: fl_eval)

lemma at_index_nat:
  assumes "k < length xs"
  shows "at_index (map Fin xs) (Fin (of_nat k)) = Fin (xs ! k)"
  using assms by (simp add: at_index_def)

lemma first_quartile_index:
  assumes "n < 2 ^ 32"
  shows "jfloor (jmul (Fin (of_nat n)) (lit (25 / 100))) = Fin (of_nat (n div 4))"
proof -
  have "\<bar>int n\<bar> < 2 ^ 53"
    using assms by simp
  then have "fl (of_int (int n) / 4) = Fin (of_int (int n) / 4)"
    by (rule fl_quarters)
  then have "jmul (Fin (of_nat n)) (Fin (1 / 4)) = Fin (of_nat n / 4)"
    by simp
  moreover have "\<lfloor>rat_of_nat n / 4\<rfloor> = int (n div 4)"
    using floor_divide_of_nat_eq [of n 4, where ?'a = rat] by simp
  ultimately show ?thesis
    unfolding lit_quarter by simp
qed

lemma third_quartile_index:
  assumes "n < 2 ^ 32"
  shows "jfloor (jmul (Fin (of_nat n)) (lit (75 / 100))) = Fin (of_nat (3 * n div 4))"
proof -
  have "\<bar>3 * int n\<bar> < 2 ^ 53"
    using assms by simp
  then have "fl (of_int (3 * int n) / 4) = Fin (of_int (3 * int n) / 4)"
    by (rule fl_quarters)
  then have "jmul (Fin (of_nat n)) (Fin (3 / 4)) = Fin (of_nat (3 * n) / 4)"
    by (simp add: algebra_simps)
  moreover have "\<lfloor>rat_of_nat (3 * n) / 4\<rfloor> = int (3 * n div 4)"
    using floor_divide_of_nat_eq [of "3 * n" 4, where ?'a = rat] by simp
  ultimately show ?thesis
    unfolding lit_three_quarters by simp
qed

lemma last_index:
  assumes "0 < n" "n < 2 ^ 32"
  shows "jsub (Fin (of_nat n)) (Fin 1) = Fin (of_nat (n - 1))"
proof -
  have "\<bar>int n - 1\<bar> < 2 ^ 53"
    using assms by simp
  then have ex: "fl (of_int (int n - 1)) = Fin (of_int (int n - 1))"
    by (rule fl_of_int)
  have e: "rat_of_nat n + - 1 = of_int (int n - 1)"
    by simp
  have f: "rat_of_int (int n - 1) = of_nat (n - 1)"
    using assms(1) by (simp add: of_nat_diff)
  have "jsub (Fin (of_nat n)) (Fin 1) = fl (rat_of_nat n + - 1)"
    by (simp add: jsub_def)
  also have "\<dots> = Fin (of_int (int n - 1))"
    unfolding e by (rule ex)
  also have "\<dots> = Fin (of_nat (n - 1))"
    unfolding f by (rule refl)
  finally show ?thesis .
qed

text \<open>The robust estimate, written with the order statistics of the sample.\<close>

lemma uniformRobust_sorted:
  assumes "0 < length qs" "length qs < 2 ^ 32" "\<forall>q \<in> set qs. representable q"
  shows "uniformRobust (map Fin qs) =
    [''a'' \<mapsto> jmax (Fin (sort qs ! 0))
                 (jsub (Fin (sort qs ! (length qs div 4)))
                    (jmul (Fin 3) (jsub (Fin (sort qs ! (3 * length qs div 4)))
                                        (Fin (sort qs ! (length qs div 4)))))),
     ''b'' \<mapsto> jmin (Fin (sort qs ! (length qs - 1)))
                 (jadd (Fin (sort qs ! (3 * length qs div 4)))
                    (jmul (Fin 3) (jsub (Fin (sort qs ! (3 * length qs div 4)))
                                        (Fin (sort qs ! (length qs div 4))))))]"
proof -
  have s: "js_sort (\<lambda>a b. jsub a b) (map Fin qs) = map Fin (sort qs)"
    using assms(3) representable_grid by (intro js_sort_Fin) blast
  have i: "length qs div 4 < length (sort qs)" "3 * length qs div 4 < length (sort qs)"
    "length qs - 1 < length (sort qs)" "0 < length (sort qs)"
    using assms(1) by (simp_all, presburger)
  have z: "Fin 0 = Fin (of_nat 0)"
    by simp
  show ?thesis
    unfolding uniformRobust_def s Let_def length_map length_sort
      first_quartile_index [OF assms(2)] third_quartile_index [OF assms(2)]
      last_index [OF assms(1,2)] at_index_nat [OF i(1)] at_index_nat [OF i(2)]
      at_index_nat [OF i(3)]
    by (subst z, subst at_index_nat [OF i(4)]) simp
qed

text \<open>
  Claim C10: for a sample of length at least \<open>5\<close>, the robust estimate of the uniform
  parameters in the automatic test, \<open>a = max (minimum, Q1 - 3 IQR)\<close> and
  \<open>b = min (maximum, Q3 + 3 IQR)\<close> with the quartiles read from the sorted sample,
  satisfies \<open>minimum \<le> a \<le> b \<le> maximum\<close>. The sample is a list of binary64 values
  (finite numbers), of a length that an array can have; \<open>uniformRobust_sorted\<close> above
  shows that the estimate is the formula of the claim on the order statistics.
\<close>

theorem robust_uniform_within_range:
  assumes "5 \<le> length qs" "length qs < 2 ^ 32" "\<forall>q \<in> set qs. representable q"
  shows "\<exists>a b. uniformRobust (map Fin qs) ''a'' = Some (Fin a)
           \<and> uniformRobust (map Fin qs) ''b'' = Some (Fin b)
           \<and> Min (set qs) \<le> a \<and> a \<le> b \<and> b \<le> Max (set qs)"
proof -
  define n where "n = length qs"
  define S where "S = sort qs"
  have n: "0 < n" "n < 2 ^ 32" "length S = n"
  proof -
    show "0 < n"
      using assms(1) unfolding n_def by linarith
    show "n < 2 ^ 32"
      using assms(2) unfolding n_def .
    show "length S = n"
      by (simp add: n_def S_def)
  qed
  have idx: "0 \<le> n div 4" "n div 4 \<le> 3 * n div 4" "3 * n div 4 \<le> n - 1" "n - 1 < length S"
    using n by simp_all
  have srt: "sorted S"
    by (simp add: S_def)
  have ord: "S ! 0 \<le> S ! (n div 4)" "S ! (n div 4) \<le> S ! (3 * n div 4)"
    "S ! (3 * n div 4) \<le> S ! (n - 1)"
    using srt idx by (auto intro!: sorted_nth_mono)
  have mem: "S ! 0 \<in> set qs" "S ! (n div 4) \<in> set qs" "S ! (3 * n div 4) \<in> set qs"
    "S ! (n - 1) \<in> set qs"
    using idx n nth_mem [of _ S] by (auto simp: S_def)
  then have rep: "representable (S ! (n div 4))" "representable (S ! (3 * n div 4))"
    using assms(3) by blast+
  define t where "t = jmul (Fin 3) (jsub (Fin (S ! (3 * n div 4))) (Fin (S ! (n div 4))))"
  have t: "t = PInf \<or> (\<exists>w. t = Fin w \<and> 0 \<le> w)"
    unfolding t_def using ord(2) by (rule three_iqr)
  obtain a where a: "jmax (Fin (S ! 0)) (jsub (Fin (S ! (n div 4))) t) = Fin a"
    "S ! 0 \<le> a" "a \<le> S ! (n div 4)"
    using robust_lower [OF rep(1) ord(1) t] by blast
  obtain b where b: "jmin (Fin (S ! (n - 1))) (jadd (Fin (S ! (3 * n div 4))) t) = Fin b"
    "S ! (3 * n div 4) \<le> b" "b \<le> S ! (n - 1)"
    using robust_upper [OF rep(2) ord(3) t] by blast
  have "uniformRobust (map Fin qs) = [''a'' \<mapsto> Fin a, ''b'' \<mapsto> Fin b]"
    using uniformRobust_sorted [of qs] assms n(1) a(1) b(1)
    by (simp add: n_def S_def t_def)
  moreover have "Min (set qs) \<le> S ! 0" "S ! (n - 1) \<le> Max (set qs)"
    using mem by simp_all
  ultimately show ?thesis
    using a(2,3) b(2,3) ord(2) by (intro exI [of _ a] exI [of _ b]) simp
qed

lemma representable_of_int:
  assumes "\<bar>m\<bar> < 2 ^ 53"
  shows "representable (of_int m)"
  using rnd_exact [OF assms, of 0] by (simp add: representable_def)

lemma representable_sample: "\<forall>q \<in> set quartileSample. representable q"
proof -
  have "\<forall>m \<in> set [1, 5, 3, 2, 4, 9, 100 :: int]. representable (of_int m)"
    by (intro ballI representable_of_int) auto
  then show ?thesis
    by (simp add: quartileSample_def)
qed

text \<open>For the sample \<open>1, 5, 3, 2, 4, 9, 100\<close> the quartiles are \<open>2\<close> and \<open>9\<close>: the estimate is
  \<open>a = 1\<close>, the minimum, and \<open>b = 30\<close>, below the outlier \<open>100\<close>.\<close>

theorem robust_uniform_within_range_witness:
  "uniformRobust (map Fin quartileSample) ''a'' = Some (Fin 1)
   \<and> uniformRobust (map Fin quartileSample) ''b'' = Some (Fin 30)
   \<and> Min (set quartileSample) = 1 \<and> Max (set quartileSample) = 100
   \<and> (\<exists>a b. uniformRobust (map Fin quartileSample) ''a'' = Some (Fin a)
           \<and> uniformRobust (map Fin quartileSample) ''b'' = Some (Fin b)
           \<and> Min (set quartileSample) \<le> a \<and> a \<le> b \<and> b \<le> Max (set quartileSample))"
proof -
  have l: "5 \<le> length quartileSample" "length quartileSample < 2 ^ 32"
    by (simp_all add: quartileSample_def)
  have s: "sort quartileSample = [1, 2, 3, 4, 5, 9, 100]" "length quartileSample = 7"
    by (simp_all add: quartileSample_def)
  have "uniformRobust (map Fin quartileSample) = [''a'' \<mapsto> Fin 1, ''b'' \<mapsto> Fin 30]"
    using l(2) representable_sample
    by (subst uniformRobust_sorted) (simp_all add: s fl_eval)
  then have "uniformRobust (map Fin quartileSample) ''a'' = Some (Fin 1)"
    "uniformRobust (map Fin quartileSample) ''b'' = Some (Fin 30)"
    by simp_all
  moreover have "Min (set quartileSample) = 1" "Max (set quartileSample) = 100"
    by (simp_all add: quartileSample_def)
  ultimately show ?thesis
    using robust_uniform_within_range [OF l representable_sample] by blast
qed

subsection \<open>The exponential estimate and the applicability of the tests\<close>

lemma estimateParameters_exponential:
  assumes "autoEstimateParams c" "state_distributionType c = Exponential"
  shows "estimatedParams (estimateParameters lib c) ''lambda''
           = Some (jdiv (Fin 1) (calculateMean lib (dataset c)))"
  using assms by (simp add: estimateParameters_def)

lemma paramsToUse_exponential:
  "paramsToUse lib c Exponential ''lambda''
     = Some (if js_le (calculateMean lib (dataset c)) (Fin 0) then Fin 1
             else jdiv (Fin 1) (calculateMean lib (dataset c)))"
  by (simp add: paramsToUse_def Let_def)

lemma mean_negativeSample: "calculateMean sampleLib (dataset negativeSample) = Fin (- 2)"
  by (simp add: sampleLib_def arithmeticMean_def negativeSample_def sampleComponent_def fl_eval)

lemma mean_zeroSample: "calculateMean sampleLib (dataset zeroSample) = Fin 0"
  by (simp add: sampleLib_def arithmeticMean_def zeroSample_def sampleComponent_def fl_eval)

text \<open>
  Claim C8 says that on every estimation path a sample mean that is not positive makes
  the exponential estimator fall back to \<open>lambda = 1\<close>, so that no estimate is \<open>NaN\<close> or
  infinite. \<open>estimateParameters\<close> has no such fallback: for a sample of mean \<open>- 2\<close> it
  stores \<open>lambda = - 0.5\<close>, and for a sample of zeros \<open>lambda = Infinity\<close>, where the
  automatic test, on the same samples, uses \<open>lambda = 1\<close>.
\<close>

theorem exponential_estimate_without_fallback:
  "estimatedParams (estimateParameters sampleLib negativeSample) ''lambda'' = Some (Fin (- (1 / 2)))
   \<and> estimatedParams (estimateParameters sampleLib zeroSample) ''lambda'' = Some PInf
   \<and> paramsToUse sampleLib negativeSample Exponential ''lambda'' = Some (Fin 1)
   \<and> paramsToUse sampleLib zeroSample Exponential ''lambda'' = Some (Fin 1)"
proof -
  have c: "autoEstimateParams negativeSample" "state_distributionType negativeSample = Exponential"
    "autoEstimateParams zeroSample" "state_distributionType zeroSample = Exponential"
    by (simp_all add: negativeSample_def zeroSample_def sampleComponent_def)
  have "jdiv (Fin 1) (Fin (- 2)) = Fin (- (1 / 2))"
    by (simp add: fl_eval)
  then show ?thesis
    unfolding estimateParameters_exponential [OF c(1,2)] estimateParameters_exponential [OF c(3,4)]
      paramsToUse_exponential mean_negativeSample mean_zeroSample
    by (simp add: js_le_def)
qed

text \<open>
  Claim C6 says that the Kolmogorov-Smirnov test applies to the normal, uniform and
  exponential distributions only and that the automatic test never runs it on the
  Poisson distribution. In the version of the component that has the automatic test,
  the ninth pair of the enumeration is (poisson, Kolmogorov-Smirnov), for every
  input: its entry is in \<open>testResults\<close> and the test is called on it. The tables of that
  version list the test for the Poisson distribution and the distribution for the test;
  the tables of \<open>GoodnessOfFitTest.tsx\<close> list neither. In the sample run the pair is
  the sixth entry of the list that the automatic test returns.
\<close>

theorem auto_test_runs_ks_on_poisson:
  "distributionType (testResults lib c ! 8) = Poisson
   \<and> testType (testResults lib c ! 8) = KolmogorovSmirnov
   \<and> pairResult lib c (autoTestPairs ! 8)
       = executeGoFTest lib (dataset c) KolmogorovSmirnov Poisson (significanceLevel c)
           (paramsToUse lib c Poisson) (numBins c)
   \<and> Poisson \<in> set (applicableDistributions (testMethodOptions ! 0))
   \<and> KolmogorovSmirnov \<in> set (supportedTests (distributionOptions ! 3))
   \<and> Poisson \<notin> set (applicableDistributions (testMethodOptions_tsx ! 0))
   \<and> KolmogorovSmirnov \<notin> set (supportedTests (distributionOptions_tsx ! 3))
   \<and> map (\<lambda>r. (distributionType r, testType r))
        (autoTestResults (performAutoTest sampleLib sampleComponent)) ! 5
        = (Poisson, KolmogorovSmirnov)"
proof -
  have p: "map (\<lambda>p. (dist_type (fst p), method_type (snd p))) autoTestPairs ! 8
             = (Poisson, KolmogorovSmirnov)"
    unfolding autoTestPairs_types by simp
  have i: "8 < length autoTestPairs"
    by (simp add: length_autoTestPairs)
  then have q: "dist_type (fst (autoTestPairs ! 8)) = Poisson"
    "method_type (snd (autoTestPairs ! 8)) = KolmogorovSmirnov"
    using p by simp_all
  have "distributionType (testResults lib c ! 8) = Poisson"
    "testType (testResults lib c ! 8) = KolmogorovSmirnov"
    using i q by (simp_all add: testResults_nth)
  moreover have "pairResult lib c (autoTestPairs ! 8)
       = executeGoFTest lib (dataset c) KolmogorovSmirnov Poisson (significanceLevel c)
           (paramsToUse lib c Poisson) (numBins c)"
    by (simp add: pairResult_def q)
  moreover have "Poisson \<in> set (applicableDistributions (testMethodOptions ! 0))"
    "KolmogorovSmirnov \<in> set (supportedTests (distributionOptions ! 3))"
    "Poisson \<notin> set (applicableDistributions (testMethodOptions_tsx ! 0))"
    "KolmogorovSmirnov \<notin> set (supportedTests (distributionOptions_tsx ! 3))"
    by (simp_all add: testMethodOptions_def distributionOptions_def testMethodOptions_tsx_def
        distributionOptions_tsx_def)
  moreover have "map (\<lambda>r. (distributionType r, testType r))
        (autoTestResults (performAutoTest sampleLib sampleComponent)) ! 5
        = (Poisson, KolmogorovSmirnov)"
    using arg_cong [OF sample_ranked, of "map (\<lambda>t. (fst (snd t), fst (snd (snd t))))"]
    by (simp add: comp_def)
  ultimately show ?thesis
    by blast
qed


end
